theory Spec2Isabelle
  imports Main
begin

section \<open>The external collaborators\<close>

text \<open>
  Both scripts call into two libraries that are not part of the repository: a chess rules
  engine (\<^verbatim>\<open>Chess\<close>) and a board widget (\<^verbatim>\<open>Chessboard\<close>). The rules engine is taken
  as a parameter: a record of the methods the scripts call, over an arbitrary type \<open>'g\<close> of
  game values. The scripts mutate one game object in place; the model passes the game
  value along instead.
\<close>

datatype color = White | Black

datatype ptype = Pawn | Knight | Bishop | Rook | Queen | King

datatype piece = Piece (ptype: ptype) (pcolor: color)

type_synonym grid = "piece option list list"

text \<open>
  \<^verbatim>\<open>game.move(...)\<close> has three outcomes in the scripts: it returns the move details (the
  game has changed), it returns \<^verbatim>\<open>null\<close> (the case \<^verbatim>\<open>onDrop\<close> tests for), or it throws
  (the case the \<^verbatim>\<open>try\<close> blocks around it catch). In the last two the game is unchanged.
\<close>

datatype 'g move_result = Moved 'g | Null | Throws

text \<open>
  The constructor may throw; the other methods (\<^verbatim>\<open>fen\<close>, \<^verbatim>\<open>turn\<close>, \<^verbatim>\<open>board\<close>, \<^verbatim>\<open>moves\<close>,
  \<^verbatim>\<open>isGameOver\<close>) only read the game and return.
\<close>

record 'g engine =
  new_Chess :: "string \<Rightarrow> 'g option"
    \<comment> \<open>\<^verbatim>\<open>new Chess(fen)\<close>; \<open>None\<close> when the constructor throws\<close>
  move :: "'g \<Rightarrow> string option \<Rightarrow> 'g move_result"
    \<comment> \<open>\<^verbatim>\<open>game.move(m, { sloppy: true })\<close>; the argument is \<open>None\<close> for \<^verbatim>\<open>undefined\<close>\<close>
  move_plain :: "'g \<Rightarrow> string option \<Rightarrow> 'g move_result"
    \<comment> \<open>\<^verbatim>\<open>game.move(m)\<close>, without options\<close>
  move_from_to :: "'g \<Rightarrow> string \<Rightarrow> string \<Rightarrow> 'g move_result"
    \<comment> \<open>\<^verbatim>\<open>game.move({ from, to, promotion: 'q' })\<close>\<close>
  fen :: "'g \<Rightarrow> string"
  turn :: "'g \<Rightarrow> color"
  board_of :: "'g \<Rightarrow> grid"
    \<comment> \<open>\<^verbatim>\<open>game.board()\<close>\<close>
  moves :: "'g \<Rightarrow> string list"
  isGameOver :: "'g \<Rightarrow> bool"

text \<open>The widget: the position last pushed to it and the side shown at the bottom.\<close>

record display =
  position :: string
  orientation :: color

text \<open>
  A handler either runs to its end or is cut short by an exception nobody catches; the
  assignments made before the throw stay.
\<close>

datatype 's run = Finished 's | Raised 's

fun final :: "'s run \<Rightarrow> 's" where
  "final (Finished s) = s"
| "final (Raised s) = s"

text \<open>Array indexing: \<^verbatim>\<open>xs[i]\<close> is \<^verbatim>\<open>undefined\<close> outside the array.\<close>

definition js_nth :: "'a list \<Rightarrow> int \<Rightarrow> 'a option" where
  "js_nth xs i = (if 0 \<le> i \<and> i < int (length xs) then Some (xs ! nat i) else None)"

text \<open>\<^verbatim>\<open>s.split(c)\<close> for a one-character separator: the empty string gives one empty token.\<close>

fun split_on :: "char \<Rightarrow> string \<Rightarrow> string list" where
  "split_on sep [] = [[]]"
| "split_on sep (c # cs) =
     (if c = sep then [] # split_on sep cs
      else (case split_on sep cs of
              [] \<Rightarrow> [[c]]
            | w # ws \<Rightarrow> (c # w) # ws))"

section \<open>Math.floor(Math.random() * n)\<close>

text \<open>
  \<^verbatim>\<open>Math.random()\<close> returns a double \<open>r\<close> with \<open>0 \<le> r < 1\<close>. Every such double is
  \<open>m / 2 ^ E\<close> for integers \<open>0 \<le> m < 2 ^ 53\<close> and \<open>E \<le> 1074\<close> with \<open>m < 2 ^ E\<close>, and every
  such quotient is a double; \<open>UnitDouble m E\<close> stands for it. An array length \<open>n\<close> is
  below \<open>2 ^ 32\<close> and so a double as it is. The product \<^verbatim>\<open>r * n\<close> of the two doubles is the
  exact product \<open>m * n / 2 ^ E\<close> rounded to 53 significant bits, ties to even:
  \<open>round_to_bits 53\<close> rounds the numerator, the scale \<open>2 ^ E\<close> staying. \<^verbatim>\<open>Math.floor\<close> then
  takes the integer part.
\<close>

function width :: "int \<Rightarrow> nat" where
  "width n = (if n \<le> 0 then 0 else Suc (width (n div 2)))"
  by pat_completeness auto
termination
  by (relation "measure nat") auto

declare width.simps [simp del]

definition round_to_bits :: "nat \<Rightarrow> int \<Rightarrow> int" where
  "round_to_bits p M =
     (if M < 2 ^ p then M
      else
        (let s = width M - p;
             q = M div 2 ^ s;
             rest = M mod 2 ^ s;
             q' = (if rest > 2 ^ (s - 1) \<or> (rest = 2 ^ (s - 1) \<and> odd q) then q + 1 else q)
         in q' * 2 ^ s))"

datatype unit_double = UnitDouble (mant: int) (expo: nat)

definition is_unit_double :: "unit_double \<Rightarrow> bool" where
  "is_unit_double r = (0 \<le> mant r \<and> mant r < 2 ^ 53 \<and> expo r \<le> 1074 \<and> mant r < 2 ^ expo r)"

definition floor_times :: "unit_double \<Rightarrow> nat \<Rightarrow> int" where
  "floor_times r n = round_to_bits 53 (mant r * int n) div 2 ^ expo r"

section \<open>randompuzzle.js: state\<close>

datatype move_info =
    StartingPosition
  | AfterAllMoves
  | MoveNumber int "string option"
    \<comment> \<open>the text \<^verbatim>\<open>Move ${currentMoveIndex + 1}: ${puzzleMoves[currentMoveIndex]}\<close>\<close>

record buttons =
  btnStart :: bool
  btnPrev :: bool
  btnNext :: bool
  btnEnd :: bool

record material =
  white :: int
  black :: int

record material_panel =
  startMaterial :: material
  endMaterial :: material
  whiteDiff :: int
  blackDiff :: int

record 'g pstate =
  board :: display
  game :: "'g option"
  puzzleMoves :: "string list"
  currentMoveIndex :: int
  originalFen :: "string option"
  moveInfo :: move_info
  disabled :: buttons
  panel :: "material_panel option"
  timers :: "nat list"
    \<comment> \<open>the delays of the pending setup-move timeouts\<close>

section \<open>randompuzzle.js: the move display\<close>

text \<open>
  The page elements (\<^verbatim>\<open>move-info\<close>, the four buttons, \<^verbatim>\<open>material-display\<close>) are static
  HTML and are taken to exist. The text of \<^verbatim>\<open>move-info\<close> is kept as a value of
  \<open>move_info\<close>.
\<close>

definition updateButtonStates :: "'g pstate \<Rightarrow> 'g pstate" where
  "updateButtonStates st =
     st\<lparr>disabled :=
          \<lparr>btnStart = (currentMoveIndex st = -1),
           btnPrev = (currentMoveIndex st \<le> -1),
           btnNext = (currentMoveIndex st \<ge> int (length (puzzleMoves st)) - 1),
           btnEnd = (currentMoveIndex st \<ge> int (length (puzzleMoves st)) - 1)\<rparr>\<rparr>"

definition updateMoveDisplay :: "'g pstate \<Rightarrow> 'g pstate" where
  "updateMoveDisplay st =
     updateButtonStates
       (st\<lparr>moveInfo :=
             (if currentMoveIndex st = -1 then StartingPosition
              else if currentMoveIndex st \<ge> int (length (puzzleMoves st)) then AfterAllMoves
              else MoveNumber (currentMoveIndex st + 1)
                     (js_nth (puzzleMoves st) (currentMoveIndex st)))\<rparr>)"

section \<open>randompuzzle.js: navigation\<close>

text \<open>
  The replay loop of \<^verbatim>\<open>previousMove\<close> and \<^verbatim>\<open>goToEnd\<close>:
  \<^verbatim>\<open>for (let i = 0; i <= currentMoveIndex; i++) game.move(puzzleMoves[i], { sloppy: true })\<close>.
  A \<^verbatim>\<open>null\<close> result is ignored; a throw leaves the loop and the handler.
\<close>

datatype 'g replay = Done 'g | Aborted 'g

function replay_loop :: "'g engine \<Rightarrow> 'g \<Rightarrow> string list \<Rightarrow> int \<Rightarrow> int \<Rightarrow> 'g replay" where
  "replay_loop eng g ms i c =
     (if i \<le> c then
        (case move eng g (js_nth ms i) of
           Throws \<Rightarrow> Aborted g
         | Null \<Rightarrow> replay_loop eng g ms (i + 1) c
         | Moved g' \<Rightarrow> replay_loop eng g' ms (i + 1) c)
      else Done g)"
  by pat_completeness auto
termination
  by (relation "measure (\<lambda>(eng, g, ms, i, c). nat (c + 1 - i))") auto

declare replay_loop.simps [simp del]

text \<open>\<^verbatim>\<open>new Chess(originalFen)\<close>; with \<^verbatim>\<open>originalFen\<close> still \<^verbatim>\<open>null\<close> the constructor throws.\<close>

definition construct :: "'g engine \<Rightarrow> string option \<Rightarrow> 'g option" where
  "construct eng fo = (case fo of None \<Rightarrow> None | Some f \<Rightarrow> new_Chess eng f)"

definition show_position :: "string \<Rightarrow> 'g pstate \<Rightarrow> 'g pstate" where
  "show_position p st = st\<lparr>board := (board st)\<lparr>position := p\<rparr>\<rparr>"

definition goToStart :: "'g engine \<Rightarrow> 'g pstate \<Rightarrow> 'g pstate run" where
  "goToStart eng st =
     (let st1 = st\<lparr>currentMoveIndex := -1\<rparr> in
      case originalFen st1 of
        None \<Rightarrow> Raised st1
      | Some f \<Rightarrow>
          (case new_Chess eng f of
             None \<Rightarrow> Raised st1
           | Some g \<Rightarrow> Finished (updateMoveDisplay (show_position f (st1\<lparr>game := Some g\<rparr>)))))"

definition replay_and_show :: "'g engine \<Rightarrow> 'g pstate \<Rightarrow> 'g pstate run" where
  "replay_and_show eng st =
     (case construct eng (originalFen st) of
        None \<Rightarrow> Raised st
      | Some g \<Rightarrow>
          (case replay_loop eng g (puzzleMoves st) 0 (currentMoveIndex st) of
             Aborted g' \<Rightarrow> Raised (st\<lparr>game := Some g'\<rparr>)
           | Done g' \<Rightarrow>
               Finished (updateMoveDisplay (show_position (fen eng g') (st\<lparr>game := Some g'\<rparr>)))))"

definition previousMove :: "'g engine \<Rightarrow> 'g pstate \<Rightarrow> 'g pstate run" where
  "previousMove eng st =
     (if currentMoveIndex st > -1 then
        (let st1 = st\<lparr>currentMoveIndex := currentMoveIndex st - 1\<rparr> in
         if currentMoveIndex st1 = -1 then goToStart eng st1
         else replay_and_show eng st1)
      else Finished st)"

definition nextMove :: "'g engine \<Rightarrow> 'g pstate \<Rightarrow> 'g pstate run" where
  "nextMove eng st =
     (if currentMoveIndex st < int (length (puzzleMoves st)) - 1 then
        (let st1 = st\<lparr>currentMoveIndex := currentMoveIndex st + 1\<rparr> in
         case game st1 of
           None \<Rightarrow> Raised st1
         | Some g \<Rightarrow>
             (case move eng g (js_nth (puzzleMoves st1) (currentMoveIndex st1)) of
                Throws \<Rightarrow> Raised st1
              | Null \<Rightarrow> Finished (updateMoveDisplay (show_position (fen eng g) st1))
              | Moved g' \<Rightarrow>
                  Finished (updateMoveDisplay
                    (show_position (fen eng g') (st1\<lparr>game := Some g'\<rparr>)))))
      else Finished st)"

definition goToEnd :: "'g engine \<Rightarrow> 'g pstate \<Rightarrow> 'g pstate run" where
  "goToEnd eng st =
     replay_and_show eng (st\<lparr>currentMoveIndex := int (length (puzzleMoves st)) - 1\<rparr>)"

section \<open>randompuzzle.js: drag and drop\<close>

datatype drop_reply = Snapback

text \<open>
  \<^verbatim>\<open>config.onDrop\<close>. Every path returns \<^verbatim>\<open>'snapback'\<close>; the \<^verbatim>\<open>catch\<close> covers a throwing
  \<^verbatim>\<open>game.move\<close> and a \<^verbatim>\<open>game\<close> that is still \<^verbatim>\<open>null\<close>. A legal move stays applied to the
  rules object; the widget is not given a new position.
\<close>

definition onDrop :: "'g engine \<Rightarrow> string \<Rightarrow> string \<Rightarrow> 'g pstate \<Rightarrow> drop_reply \<times> 'g pstate" where
  "onDrop eng source target st =
     (case game st of
        None \<Rightarrow> (Snapback, st)
      | Some g \<Rightarrow>
          (case move_from_to eng g source target of
             Throws \<Rightarrow> (Snapback, st)
           | Null \<Rightarrow> (Snapback, st)
           | Moved g' \<Rightarrow> (Snapback, updateMoveDisplay (st\<lparr>game := Some g'\<rparr>))))"

section \<open>randompuzzle.js: material\<close>

fun MATERIAL_VALUES :: "ptype \<Rightarrow> int" where
  "MATERIAL_VALUES Pawn = 1"
| "MATERIAL_VALUES Knight = 3"
| "MATERIAL_VALUES Bishop = 3"
| "MATERIAL_VALUES Rook = 5"
| "MATERIAL_VALUES Queen = 9"
| "MATERIAL_VALUES King = 0"

text \<open>
  A \<^verbatim>\<open>try\<close> block is modelled by an option: \<open>None\<close> is an exception leaving the block,
  and \<open>catch_with\<close> is the \<^verbatim>\<open>catch\<close> clause returning a value.
\<close>

definition catch_with :: "'a \<Rightarrow> 'a option \<Rightarrow> 'a option" where
  "catch_with fallback body = (case body of None \<Rightarrow> Some fallback | Some v \<Rightarrow> Some v)"

definition count_piece :: "piece \<Rightarrow> material \<Rightarrow> material" where
  "count_piece p m =
     (if pcolor p = White then m\<lparr>white := white m + MATERIAL_VALUES (ptype p)\<rparr>
      else m\<lparr>black := black m + MATERIAL_VALUES (ptype p)\<rparr>)"

text \<open>
  \<^verbatim>\<open>const piece = board[row][col]; if (piece) ...\<close>: a missing row makes the second index
  throw, a missing column gives \<^verbatim>\<open>undefined\<close>, which the test skips.
\<close>

definition scan_cell :: "grid \<Rightarrow> nat \<Rightarrow> nat \<Rightarrow> material \<Rightarrow> material option" where
  "scan_cell b row col m =
     (if row < length b then
        (if col < length (b ! row) then
           (case b ! row ! col of None \<Rightarrow> Some m | Some p \<Rightarrow> Some (count_piece p m))
         else Some m)
      else None)"

fun scan_cols :: "grid \<Rightarrow> nat \<Rightarrow> nat list \<Rightarrow> material \<Rightarrow> material option" where
  "scan_cols b row [] m = Some m"
| "scan_cols b row (col # cols) m =
     (case scan_cell b row col m of None \<Rightarrow> None | Some m' \<Rightarrow> scan_cols b row cols m')"

fun scan_rows :: "grid \<Rightarrow> nat list \<Rightarrow> material \<Rightarrow> material option" where
  "scan_rows b [] m = Some m"
| "scan_rows b (row # rows) m =
     (case scan_cols b row [0..<8] m of None \<Rightarrow> None | Some m' \<Rightarrow> scan_rows b rows m')"

definition calculateMaterial_try :: "'g engine \<Rightarrow> string \<Rightarrow> material option" where
  "calculateMaterial_try eng f =
     (case new_Chess eng f of
        None \<Rightarrow> None
      | Some g \<Rightarrow> scan_rows (board_of eng g) [0..<8] \<lparr>white = 0, black = 0\<rparr>)"

definition calculateMaterial :: "'g engine \<Rightarrow> string \<Rightarrow> material option" where
  "calculateMaterial eng f = catch_with \<lparr>white = 0, black = 0\<rparr> (calculateMaterial_try eng f)"

text \<open>
  The loop of \<^verbatim>\<open>playMovesAndCalculateMaterial\<close>: a token is played when it is non-empty and
  has at least four characters; a \<^verbatim>\<open>null\<close> result is ignored; a throw is caught inside the
  loop and followed by \<^verbatim>\<open>break\<close>.
\<close>

fun play_moves :: "'g engine \<Rightarrow> 'g \<Rightarrow> string list \<Rightarrow> 'g" where
  "play_moves eng g [] = g"
| "play_moves eng g (m # ms) =
     (if m \<noteq> [] \<and> length m \<ge> 4 then
        (case move eng g (Some m) of
           Throws \<Rightarrow> g
         | Null \<Rightarrow> play_moves eng g ms
         | Moved g' \<Rightarrow> play_moves eng g' ms)
      else play_moves eng g ms)"

definition playMoves_try :: "'g engine \<Rightarrow> string \<Rightarrow> string \<Rightarrow> material option" where
  "playMoves_try eng startFen mvs =
     (case new_Chess eng startFen of
        None \<Rightarrow> None
      | Some g \<Rightarrow> calculateMaterial eng (fen eng (play_moves eng g (split_on CHR '' '' mvs))))"

definition playMovesAndCalculateMaterial :: "'g engine \<Rightarrow> string \<Rightarrow> string \<Rightarrow> material option" where
  "playMovesAndCalculateMaterial eng startFen mvs =
     catch_with \<lparr>white = 0, black = 0\<rparr> (playMoves_try eng startFen mvs)"

section \<open>randompuzzle.js: loading a puzzle\<close>

record puzzle =
  FEN :: string
  Moves :: string

definition displayMaterialAnalysis ::
  "material \<Rightarrow> material \<Rightarrow> int \<Rightarrow> int \<Rightarrow> 'g pstate \<Rightarrow> 'g pstate" where
  "displayMaterialAnalysis sm em wd bd st =
     st\<lparr>panel := Some \<lparr>startMaterial = sm, endMaterial = em, whiteDiff = wd, blackDiff = bd\<rparr>\<rparr>"

text \<open>The material analysis at the end of \<^verbatim>\<open>fetchRandomPuzzle\<close>, inside its own \<^verbatim>\<open>try\<close>.\<close>

definition materialAnalysis :: "'g engine \<Rightarrow> puzzle \<Rightarrow> 'g pstate \<Rightarrow> 'g pstate" where
  "materialAnalysis eng pz st =
     (case split_on CHR '' '' (Moves pz) of
        [] \<Rightarrow> st
      | first # _ \<Rightarrow>
          (case playMovesAndCalculateMaterial eng (FEN pz) first of
             None \<Rightarrow> st
           | Some firstMoveMaterial \<Rightarrow>
               (case playMovesAndCalculateMaterial eng (FEN pz) (Moves pz) of
                  None \<Rightarrow> st
                | Some endMat \<Rightarrow>
                    displayMaterialAnalysis firstMoveMaterial endMat
                      (white endMat - white firstMoveMaterial)
                      (black endMat - black firstMoveMaterial) st)))"

definition createNavigationControls :: "'g pstate \<Rightarrow> 'g pstate" where
  "createNavigationControls st = updateMoveDisplay st"

text \<open>
  \<^verbatim>\<open>fetchRandomPuzzle\<close>. \<open>fetched\<close> is the parsed \<^verbatim>\<open>puzzles.json\<close> (\<open>None\<close> when the fetch
  or the parse fails) and \<open>r\<close> the double \<^verbatim>\<open>Math.random()\<close> returns. The outer \<^verbatim>\<open>catch\<close> falls back
  to \<^verbatim>\<open>board.position('start')\<close>; the assignments made before the throw stay.
\<close>

definition fetchRandomPuzzle ::
  "'g engine \<Rightarrow> puzzle list option \<Rightarrow> unit_double \<Rightarrow> 'g pstate \<Rightarrow> 'g pstate" where
  "fetchRandomPuzzle eng fetched r st =
     (case fetched of
        None \<Rightarrow> show_position ''start'' st
      | Some data \<Rightarrow>
          (case js_nth data (floor_times r (length data)) of
             None \<Rightarrow> show_position ''start'' st
           | Some pz \<Rightarrow>
               (let st1 = st\<lparr>originalFen := Some (FEN pz), currentMoveIndex := -1\<rparr> in
                case new_Chess eng (FEN pz) of
                  None \<Rightarrow> show_position ''start'' st1
                | Some g \<Rightarrow>
                    (let st2 = st1\<lparr>game := Some g\<rparr>;
                         st3 = st2\<lparr>board := (board st2)
                                 \<lparr>orientation := (if turn eng g = Black then White else Black)\<rparr>\<rparr>;
                         st4 = st3\<lparr>puzzleMoves := split_on CHR '' '' (Moves pz)\<rparr>;
                         st5 = show_position (FEN pz) st4;
                         st6 = (if length (puzzleMoves st5) > 0
                                   \<and> js_nth (puzzleMoves st5) 0 \<noteq> None
                                   \<and> js_nth (puzzleMoves st5) 0 \<noteq> Some []
                                then st5\<lparr>timers := timers st5 @ [800]\<rparr> else st5);
                         st7 = createNavigationControls st6
                     in materialAnalysis eng pz st7))))"

text \<open>
  The callback of the 800 ms timeout. Its \<^verbatim>\<open>try\<close> block is \<open>setup_try\<close>; the \<^verbatim>\<open>catch\<close>
  resets the cursor.
\<close>

definition setup_try :: "'g engine \<Rightarrow> 'g pstate \<Rightarrow> 'g pstate run" where
  "setup_try eng st =
     (case game st of
        None \<Rightarrow> Raised st
      | Some g \<Rightarrow>
          (case move eng g (js_nth (puzzleMoves st) 0) of
             Throws \<Rightarrow> Raised st
           | Null \<Rightarrow>
               Finished (updateMoveDisplay
                 ((show_position (fen eng g) st)\<lparr>currentMoveIndex := 0\<rparr>))
           | Moved g' \<Rightarrow>
               Finished (updateMoveDisplay
                 ((show_position (fen eng g') (st\<lparr>game := Some g'\<rparr>))\<lparr>currentMoveIndex := 0\<rparr>))))"

definition playSetupMove :: "'g engine \<Rightarrow> 'g pstate \<Rightarrow> 'g pstate run" where
  "playSetupMove eng st =
     (case setup_try eng st of
        Finished s \<Rightarrow> Finished s
      | Raised s \<Rightarrow> Finished (s\<lparr>currentMoveIndex := -1\<rparr>))"

text \<open>The timeout firing: the pending timer is consumed and its callback runs.\<close>

definition fire_timer :: "'g engine \<Rightarrow> 'g pstate \<Rightarrow> 'g pstate run" where
  "fire_timer eng st =
     (case timers st of
        [] \<Rightarrow> Finished st
      | d # ds \<Rightarrow> playSetupMove eng (st\<lparr>timers := ds\<rparr>))"

text \<open>The page before a puzzle is loaded, as \<^verbatim>\<open>initializeChessboard\<close> leaves it.\<close>

definition initial_page :: "'g pstate" where
  "initial_page =
     \<lparr>board = \<lparr>position = ''start'', orientation = White\<rparr>,
      game = None, puzzleMoves = [], currentMoveIndex = -1, originalFen = None,
      moveInfo = StartingPosition,
      disabled = \<lparr>btnStart = False, btnPrev = False, btnNext = False, btnEnd = False\<rparr>,
      panel = None, timers = []\<rparr>"

section \<open>randomgame.js\<close>

record 'g rstate =
  board_rg :: string
    \<comment> \<open>the position last pushed to \<^verbatim>\<open>board\<close>\<close>
  game_rg :: 'g
  timers_rg :: "nat list"
    \<comment> \<open>the delays of the pending \<^verbatim>\<open>makeRandomMove\<close> timeouts\<close>

text \<open>
  \<^verbatim>\<open>makeRandomMove\<close>, \<open>r\<close> the double \<^verbatim>\<open>Math.random()\<close> returns. The move is passed to
  \<^verbatim>\<open>game.move\<close> without options.
\<close>

definition makeRandomMove :: "'g engine \<Rightarrow> unit_double \<Rightarrow> 'g rstate \<Rightarrow> 'g rstate run" where
  "makeRandomMove eng r st =
     (let possibleMoves = moves eng (game_rg st) in
      if isGameOver eng (game_rg st) then Finished st
      else
        (let randomIdx = floor_times r (length possibleMoves) in
         case move_plain eng (game_rg st) (js_nth possibleMoves randomIdx) of
           Throws \<Rightarrow> Raised st
         | Null \<Rightarrow>
             Finished (st\<lparr>board_rg := fen eng (game_rg st),
                          timers_rg := timers_rg st @ [500]\<rparr>)
         | Moved g' \<Rightarrow>
             Finished (st\<lparr>game_rg := g', board_rg := fen eng g',
                          timers_rg := timers_rg st @ [500]\<rparr>)))"

text \<open>
  The timer chain: each firing consumes one pending timeout and runs \<^verbatim>\<open>makeRandomMove\<close>
  with the next random value; with nothing pending nothing runs any more.
\<close>

fun drive :: "'g engine \<Rightarrow> unit_double list \<Rightarrow> 'g rstate \<Rightarrow> 'g rstate" where
  "drive eng [] st = st"
| "drive eng (r # rs) st =
     (case timers_rg st of
        [] \<Rightarrow> st
      | d # ds \<Rightarrow> drive eng rs (final (makeRandomMove eng r (st\<lparr>timers_rg := ds\<rparr>))))"

section \<open>Sequences of navigation operations\<close>

datatype nav = GoToStart | PreviousMove | NextMove | GoToEnd

fun nav_step :: "'g engine \<Rightarrow> 'g pstate \<Rightarrow> nav \<Rightarrow> 'g pstate" where
  "nav_step eng st GoToStart = final (goToStart eng st)"
| "nav_step eng st PreviousMove = final (previousMove eng st)"
| "nav_step eng st NextMove = final (nextMove eng st)"
| "nav_step eng st GoToEnd = final (goToEnd eng st)"

definition run_navs :: "'g engine \<Rightarrow> nav list \<Rightarrow> 'g pstate \<Rightarrow> 'g pstate" where
  "run_navs eng ops st = foldl (nav_step eng) st ops"

text \<open>
  The moves of a list applied in order, every one of them: \<open>None\<close> as soon as the engine
  refuses one, by \<^verbatim>\<open>null\<close> or by throwing.
\<close>

fun apply_all :: "'g engine \<Rightarrow> 'g \<Rightarrow> string list \<Rightarrow> 'g option" where
  "apply_all eng g [] = Some g"
| "apply_all eng g (m # ms) =
     (case move eng g (Some m) of
        Moved g' \<Rightarrow> apply_all eng g' ms
      | Null \<Rightarrow> None
      | Throws \<Rightarrow> None)"

text \<open>
  The position the data model promises at cursor \<open>c\<close>: the moves \<open>0..c\<close> applied in
  order, none skipped, to the starting position \<open>f\<close>, serialised by the engine; with no
  move to apply (\<open>c = -1\<close>) it is the starting position as the puzzle gives it. \<open>None\<close>
  when the starting position or one of the moves is refused.
\<close>

definition applied_position :: "'g engine \<Rightarrow> string \<Rightarrow> string list \<Rightarrow> int \<Rightarrow> string option" where
  "applied_position eng f ms c =
     (case new_Chess eng f of
        None \<Rightarrow> None
      | Some g0 \<Rightarrow>
          (case apply_all eng g0 (take (nat (c + 1)) ms) of
             None \<Rightarrow> None
           | Some g \<Rightarrow> Some (if c = -1 then f else fen eng g)))"

text \<open>Every move of the puzzle applies, in order, from its starting position.\<close>

definition puzzle_applies :: "'g engine \<Rightarrow> string \<Rightarrow> string list \<Rightarrow> bool" where
  "puzzle_applies eng f ms =
     (case new_Chess eng f of
        None \<Rightarrow> False
      | Some g0 \<Rightarrow> apply_all eng g0 ms \<noteq> None)"

text \<open>Navigation operations and drops in one sequence.\<close>

datatype event = Nav nav | Drop string string

fun event_step :: "'g engine \<Rightarrow> 'g pstate \<Rightarrow> event \<Rightarrow> 'g pstate" where
  "event_step eng st (Nav n) = nav_step eng st n"
| "event_step eng st (Drop source target) = snd (onDrop eng source target st)"

definition run_events :: "'g engine \<Rightarrow> event list \<Rightarrow> 'g pstate \<Rightarrow> 'g pstate" where
  "run_events eng evs st = foldl (event_step eng) st evs"

text \<open>The engine refuses the drop in the state it is made in.\<close>

fun refused_here :: "'g engine \<Rightarrow> 'g pstate \<Rightarrow> event \<Rightarrow> bool" where
  "refused_here eng st (Nav n) = True"
| "refused_here eng st (Drop source target) =
     (case game st of
        None \<Rightarrow> True
      | Some g \<Rightarrow>
          (case move_from_to eng g source target of
             Moved g' \<Rightarrow> False
           | Null \<Rightarrow> True
           | Throws \<Rightarrow> True))"

fun drops_refused :: "'g engine \<Rightarrow> 'g pstate \<Rightarrow> event list \<Rightarrow> bool" where
  "drops_refused eng st [] = True"
| "drops_refused eng st (e # es) =
     (refused_here eng st e \<and> drops_refused eng (event_step eng st e) es)"

text \<open>
  The cursor is in range, the rules object is the replay of moves \<open>0..cursor\<close> and the
  widget shows its position.
\<close>

definition in_sync :: "'g engine \<Rightarrow> 'g pstate \<Rightarrow> bool" where
  "in_sync eng st =
     (case originalFen st of
        None \<Rightarrow> False
      | Some f \<Rightarrow>
          (case new_Chess eng f of
             None \<Rightarrow> False
           | Some g0 \<Rightarrow>
               -1 \<le> currentMoveIndex st
               \<and> currentMoveIndex st < int (length (puzzleMoves st))
               \<and> (case replay_loop eng g0 (puzzleMoves st) 0 (currentMoveIndex st) of
                     Aborted g \<Rightarrow> False
                   | Done g \<Rightarrow>
                       game st = Some g
                       \<and> position (board st)
                           = (if currentMoveIndex st = -1 then f else fen eng g))))"

text \<open>Replaying the whole move list from the starting position throws nowhere.\<close>

definition replay_succeeds :: "'g engine \<Rightarrow> string \<Rightarrow> string list \<Rightarrow> bool" where
  "replay_succeeds eng f ms =
     (case new_Chess eng f of
        None \<Rightarrow> False
      | Some g0 \<Rightarrow>
          (case replay_loop eng g0 ms 0 (int (length ms) - 1) of
             Aborted g \<Rightarrow> False
           | Done g \<Rightarrow> True))"

section \<open>The material replay in the words of its description\<close>

text \<open>
  The description of \<^verbatim>\<open>playMovesAndCalculateMaterial\<close>: the tokens shorter than four
  characters are dropped; the others are applied in order, up to the first application
  that throws; the tally is that of the position reached.
\<close>

fun apply_until_throw :: "'g engine \<Rightarrow> 'g \<Rightarrow> string list \<Rightarrow> 'g" where
  "apply_until_throw eng g [] = g"
| "apply_until_throw eng g (m # ms) =
     (case move eng g (Some m) of
        Throws \<Rightarrow> g
      | Null \<Rightarrow> apply_until_throw eng g ms
      | Moved g' \<Rightarrow> apply_until_throw eng g' ms)"

text \<open>Some application in the list throws, the moves before it having been applied.\<close>

fun throws_within :: "'g engine \<Rightarrow> 'g \<Rightarrow> string list \<Rightarrow> bool" where
  "throws_within eng g [] = False"
| "throws_within eng g (m # ms) =
     (case move eng g (Some m) of
        Throws \<Rightarrow> True
      | Null \<Rightarrow> throws_within eng g ms
      | Moved g' \<Rightarrow> throws_within eng g' ms)"

definition long_tokens :: "string \<Rightarrow> string list" where
  "long_tokens mvs = filter (\<lambda>t. 4 \<le> length t) (split_on CHR '' '' mvs)"

section \<open>A small rules engine\<close>

text \<open>
  An instance of the engine record on which the definitions above can be run. It reads
  the placement and the side to move of a position string, accepts a move in coordinate
  form (\<^verbatim>\<open>e2e4\<close>) when the source square holds a piece of the side to move and the target
  square does not hold one, and reports a refused move in the way its first argument
  says: by \<^verbatim>\<open>null\<close> or by throwing. It knows nothing else of the rules of chess; the
  theorems about the scripts quantify over every engine and use this one only at concrete
  inputs.
\<close>

datatype refusal = ReturnsNull | ThrowsError

fun refused :: "refusal \<Rightarrow> 'g move_result" where
  "refused ReturnsNull = Null"
| "refused ThrowsError = Throws"

record mini =
  squares :: grid
    \<comment> \<open>eight rows from rank 8 down to rank 1, each from file a to file h\<close>
  to_move :: color

definition piece_letters :: "(char \<times> piece) list" where
  "piece_letters =
     [(CHR ''P'', Piece Pawn White), (CHR ''N'', Piece Knight White),
      (CHR ''B'', Piece Bishop White), (CHR ''R'', Piece Rook White),
      (CHR ''Q'', Piece Queen White), (CHR ''K'', Piece King White),
      (CHR ''p'', Piece Pawn Black), (CHR ''n'', Piece Knight Black),
      (CHR ''b'', Piece Bishop Black), (CHR ''r'', Piece Rook Black),
      (CHR ''q'', Piece Queen Black), (CHR ''k'', Piece King Black)]"

definition digits :: "(char \<times> nat) list" where
  "digits =
     [(CHR ''1'', 1), (CHR ''2'', 2), (CHR ''3'', 3), (CHR ''4'', 4),
      (CHR ''5'', 5), (CHR ''6'', 6), (CHR ''7'', 7), (CHR ''8'', 8)]"

definition files :: "(char \<times> nat) list" where
  "files =
     [(CHR ''a'', 0), (CHR ''b'', 1), (CHR ''c'', 2), (CHR ''d'', 3),
      (CHR ''e'', 4), (CHR ''f'', 5), (CHR ''g'', 6), (CHR ''h'', 7)]"

fun parse_row :: "string \<Rightarrow> piece option list option" where
  "parse_row [] = Some []"
| "parse_row (c # cs) =
     (case parse_row cs of
        None \<Rightarrow> None
      | Some rest \<Rightarrow>
          (case map_of digits c of
             Some n \<Rightarrow> Some (replicate n None @ rest)
           | None \<Rightarrow>
               (case map_of piece_letters c of
                  Some p \<Rightarrow> Some (Some p # rest)
                | None \<Rightarrow> None)))"

definition mini_new :: "string \<Rightarrow> mini option" where
  "mini_new f =
     (case split_on CHR '' '' f of
        placement # side # _ \<Rightarrow>
          (case those (map parse_row (split_on CHR ''/'' placement)) of
             None \<Rightarrow> None
           | Some rows \<Rightarrow>
               if length rows = 8 \<and> list_all (\<lambda>r. length r = 8) rows then
                 (if side = ''w'' then Some \<lparr>squares = rows, to_move = White\<rparr>
                  else if side = ''b'' then Some \<lparr>squares = rows, to_move = Black\<rparr>
                  else None)
               else None)
      | _ \<Rightarrow> None)"

definition letter_of :: "piece \<Rightarrow> char" where
  "letter_of p =
     (case find (\<lambda>(c, q). q = p) piece_letters of Some (c, q) \<Rightarrow> c | None \<Rightarrow> CHR ''?'')"

definition digit_of :: "nat \<Rightarrow> string" where
  "digit_of n =
     (if n = 0 then []
      else (case find (\<lambda>(c, k). k = n) digits of Some (c, k) \<Rightarrow> [c] | None \<Rightarrow> ''?''))"

fun row_text :: "piece option list \<Rightarrow> nat \<Rightarrow> string" where
  "row_text [] n = digit_of n"
| "row_text (None # sq) n = row_text sq (Suc n)"
| "row_text (Some p # sq) n = digit_of n @ letter_of p # row_text sq 0"

fun join_rows :: "string list \<Rightarrow> string" where
  "join_rows [] = []"
| "join_rows [r] = r"
| "join_rows (r # rs) = r @ CHR ''/'' # join_rows rs"

definition mini_fen :: "mini \<Rightarrow> string" where
  "mini_fen g =
     join_rows (map (\<lambda>r. row_text r 0) (squares g))
       @ (if to_move g = White then '' w'' else '' b'') @ '' - - 0 1''"

definition parse_square :: "string \<Rightarrow> (nat \<times> nat) option" where
  "parse_square s =
     (case s of
        [f, r] \<Rightarrow>
          (case (map_of files f, map_of digits r) of
             (Some col, Some rank) \<Rightarrow> Some (8 - rank, col)
           | _ \<Rightarrow> None)
      | _ \<Rightarrow> None)"

definition other :: "color \<Rightarrow> color" where
  "other c = (if c = White then Black else White)"

definition own_piece :: "mini \<Rightarrow> nat \<times> nat \<Rightarrow> bool" where
  "own_piece g sq =
     (case squares g ! fst sq ! snd sq of None \<Rightarrow> False | Some p \<Rightarrow> pcolor p = to_move g)"

definition put :: "grid \<Rightarrow> nat \<times> nat \<Rightarrow> piece option \<Rightarrow> grid" where
  "put b sq v = b[fst sq := (b ! fst sq)[snd sq := v]]"

definition mini_from_to :: "refusal \<Rightarrow> mini \<Rightarrow> string \<Rightarrow> string \<Rightarrow> mini move_result" where
  "mini_from_to how g src dst =
     (case (parse_square src, parse_square dst) of
        (Some s, Some t) \<Rightarrow>
          if own_piece g s \<and> \<not> own_piece g t then
            Moved \<lparr>squares = put (put (squares g) t (squares g ! fst s ! snd s)) s None,
                   to_move = other (to_move g)\<rparr>
          else refused how
      | _ \<Rightarrow> refused how)"

definition mini_move :: "refusal \<Rightarrow> mini \<Rightarrow> string option \<Rightarrow> mini move_result" where
  "mini_move how g mo =
     (case mo of
        None \<Rightarrow> refused how
      | Some m \<Rightarrow>
          if length m = 4 then mini_from_to how g (take 2 m) (drop 2 m) else refused how)"

definition square_name :: "nat \<times> nat \<Rightarrow> string" where
  "square_name sq =
     (case (find (\<lambda>(c, k). k = snd sq) files, find (\<lambda>(c, k). k = 8 - fst sq) digits) of
        (Some (f, _), Some (r, _)) \<Rightarrow> [f, r]
      | _ \<Rightarrow> ''??'')"

definition all_squares :: "(nat \<times> nat) list" where
  "all_squares = List.product [0..<8] [0..<8]"

definition mini_moves :: "mini \<Rightarrow> string list" where
  "mini_moves g =
     concat (map (\<lambda>s. map (\<lambda>t. square_name s @ square_name t)
                         (filter (\<lambda>t. \<not> own_piece g t) all_squares))
                 (filter (own_piece g) all_squares))"

definition mini_engine :: "refusal \<Rightarrow> mini engine" where
  "mini_engine how =
     \<lparr>new_Chess = mini_new,
      move = mini_move how,
      move_plain = mini_move how,
      move_from_to = mini_from_to how,
      fen = mini_fen,
      turn = to_move,
      board_of = squares,
      moves = mini_moves,
      isGameOver = (\<lambda>g. mini_moves g = [])\<rparr>"

definition start_fen :: string where
  "start_fen = ''rnbqkbnr/pppppppp/8/8/8/8/PPPPPPPP/RNBQKBNR w KQkq - 0 1''"

section \<open>Concrete inputs\<close>

text \<open>What \<^verbatim>\<open>board()\<close> returns for the standard starting position.\<close>

definition standard_board :: grid where
  "standard_board =
     [map (\<lambda>t. Some (Piece t Black)) [Rook, Knight, Bishop, Queen, King, Bishop, Knight, Rook],
      replicate 8 (Some (Piece Pawn Black)),
      replicate 8 None, replicate 8 None, replicate 8 None, replicate 8 None,
      replicate 8 (Some (Piece Pawn White)),
      map (\<lambda>t. Some (Piece t White)) [Rook, Knight, Bishop, Queen, King, Bishop, Knight, Rook]]"

text \<open>
  A puzzle from the standard position whose three moves are legal chess moves in that
  order, loaded into the page, and the same page after the setup timeout has fired.
\<close>

definition open_game :: puzzle where
  "open_game = \<lparr>FEN = start_fen, Moves = ''e2e4 e7e5 g1f3''\<rparr>"

definition loaded :: "refusal \<Rightarrow> puzzle \<Rightarrow> mini pstate" where
  "loaded how pz = fetchRandomPuzzle (mini_engine how) (Some [pz]) (UnitDouble 0 0) initial_page"

definition ready :: "refusal \<Rightarrow> puzzle \<Rightarrow> mini pstate" where
  "ready how pz = final (fire_timer (mini_engine how) (loaded how pz))"

text \<open>The page brought back to cursor \<open>-1\<close> by \<^verbatim>\<open>goToStart\<close>.\<close>

definition at_start :: "refusal \<Rightarrow> puzzle \<Rightarrow> mini pstate" where
  "at_start how pz = final (goToStart (mini_engine how) (ready how pz))"

text \<open>
  The ready page after two drops that are legal chess moves in turn: Black's knight from
  g8 to f6, then White's knight from b1 to c3.
\<close>

definition dragged :: "refusal \<Rightarrow> mini pstate" where
  "dragged how =
     snd (onDrop (mini_engine how) ''b1'' ''c3''
       (snd (onDrop (mini_engine how) ''g8'' ''f6'' (ready how open_game))))"

text \<open>
  Positions for the random-move driver: a black king on h8 and a white king on the given
  square, and a board on which the side to move has no piece left (so the engine reports
  the game over).
\<close>

definition kings :: "nat \<times> nat \<Rightarrow> color \<Rightarrow> mini" where
  "kings sq c =
     \<lparr>squares = put (put (replicate 8 (replicate 8 None)) (0, 7) (Some (Piece King Black)))
                   sq (Some (Piece King White)),
      to_move = c\<rparr>"

definition lone_king :: mini where
  "lone_king =
     \<lparr>squares = put (replicate 8 (replicate 8 None)) (0, 7) (Some (Piece King Black)),
      to_move = White\<rparr>"

text \<open>
  A puzzle whose second move is not a move of the position it is played in (the square e2
  is empty and it is Black's turn), and one whose first move is not (it is White's turn
  and e7 holds a black pawn).
\<close>

definition bad_second :: puzzle where
  "bad_second = \<lparr>FEN = start_fen, Moves = ''e2e4 e2e4 e7e5''\<rparr>"

definition bad_first :: puzzle where
  "bad_first = \<lparr>FEN = start_fen, Moves = ''e7e5 e2e4''\<rparr>"

section \<open>The replay loop\<close>

lemma replay_loop_past: "c < i \<Longrightarrow> replay_loop eng g ms i c = Done g"
  by (simp add: replay_loop.simps)

text \<open>One more index at the upper end is one more move after the shorter replay.\<close>

lemma replay_loop_extend:
  "i \<le> c + 1 \<Longrightarrow>
   replay_loop eng g ms i (c + 1) =
     (case replay_loop eng g ms i c of
        Aborted a \<Rightarrow> Aborted a
      | Done g' \<Rightarrow>
          (case move eng g' (js_nth ms (c + 1)) of
             Throws \<Rightarrow> Aborted g'
           | Null \<Rightarrow> Done g'
           | Moved g'' \<Rightarrow> Done g''))"
proof (induction eng g ms i c rule: replay_loop.induct)
  case (1 eng g ms i c)
  show ?case
  proof (cases "i \<le> c")
    case True
    then have le: "i + 1 \<le> c + 1" "i \<le> c + 1" by simp_all
    show ?thesis
    proof (cases "move eng g (js_nth ms i)")
      case (Moved g1)
      with True le "1.IH"(1)[OF True Moved le(1)] show ?thesis
        by (simp add: replay_loop.simps[of eng g ms i])
    next
      case Null
      with True le "1.IH"(2)[OF True Null le(1)] show ?thesis
        by (simp add: replay_loop.simps[of eng g ms i])
    next
      case Throws
      with True le show ?thesis
        by (simp add: replay_loop.simps[of eng g ms i])
    qed
  next
    case False
    with "1.prems" have eq: "i = c + 1" by simp
    have a: "replay_loop eng g ms (c + 1) c = Done g" by (simp add: replay_loop_past)
    have b: "replay_loop eng h ms (c + 1 + 1) (c + 1) = Done h" for h
      by (simp add: replay_loop_past)
    have "replay_loop eng g ms (c + 1) (c + 1) =
            (case move eng g (js_nth ms (c + 1)) of
               Throws \<Rightarrow> Aborted g | Null \<Rightarrow> Done g | Moved g'' \<Rightarrow> Done g'')"
      by (subst replay_loop.simps) (simp add: replay_loop_past split: move_result.splits)
    with a eq show ?thesis by simp
  qed
qed

lemma replay_loop_shorter:
  assumes "replay_loop eng g ms i c' = Done gN" and "c \<le> c'" and "i \<le> c + 1"
  shows "\<exists>g'. replay_loop eng g ms i c = Done g'"
proof -
  have gen: "\<forall>c. c' = c + int k \<and> i \<le> c + 1 \<longrightarrow> (\<forall>gN. replay_loop eng g ms i c' = Done gN \<longrightarrow> (\<exists>g'. replay_loop eng g ms i c = Done g'))" for k c'
  proof (induction k arbitrary: c')
    case 0
    then show ?case by auto
  next
    case (Suc k)
    show ?case
    proof (intro allI impI, elim conjE)
      fix c gN
      assume c': "c' = c + int (Suc k)" and i: "i \<le> c + 1" and d: "replay_loop eng g ms i c' = Done gN"
      have c'': "c' = (c' - 1) + 1" by simp
      have "i \<le> (c' - 1) + 1" using c' i by simp
      from replay_loop_extend[OF this, of eng g ms] d
      obtain g1 where "replay_loop eng g ms i (c' - 1) = Done g1"
        by (auto split: replay.splits)
      moreover have "c' - 1 = c + int k" using c' by simp
      ultimately show "\<exists>g'. replay_loop eng g ms i c = Done g'"
        using Suc.IH[of "c' - 1"] i by blast
    qed
  qed
  have "c' = c + int (nat (c' - c))" using assms(2) by simp
  with gen[where k = "nat (c' - c)" and c' = c'] assms show ?thesis by blast
qed

section \<open>What the handlers leave alone\<close>

lemma updateMoveDisplay_frame [simp]:
  "board (updateMoveDisplay st) = board st"
  "game (updateMoveDisplay st) = game st"
  "puzzleMoves (updateMoveDisplay st) = puzzleMoves st"
  "currentMoveIndex (updateMoveDisplay st) = currentMoveIndex st"
  "originalFen (updateMoveDisplay st) = originalFen st"
  "panel (updateMoveDisplay st) = panel st"
  "timers (updateMoveDisplay st) = timers st"
  by (simp_all add: updateMoveDisplay_def updateButtonStates_def)

lemma show_position_frame [simp]:
  "position (board (show_position p st)) = p"
  "orientation (board (show_position p st)) = orientation (board st)"
  "game (show_position p st) = game st"
  "puzzleMoves (show_position p st) = puzzleMoves st"
  "currentMoveIndex (show_position p st) = currentMoveIndex st"
  "originalFen (show_position p st) = originalFen st"
  "panel (show_position p st) = panel st"
  "timers (show_position p st) = timers st"
  by (simp_all add: show_position_def)

text \<open>The state a navigation handler leaves when it finishes at cursor \<open>c\<close> with game \<open>g\<close>.\<close>

lemma nav_state_collapse:
  "updateMoveDisplay (show_position p
      ((updateMoveDisplay (show_position q (st\<lparr>currentMoveIndex := d, game := h\<rparr>)))
         \<lparr>currentMoveIndex := c, game := g\<rparr>))
   = updateMoveDisplay (show_position p (st\<lparr>currentMoveIndex := c, game := g\<rparr>))"
  by (simp add: updateMoveDisplay_def updateButtonStates_def show_position_def)

lemma nextMove_step:
  assumes "currentMoveIndex st < int (length (puzzleMoves st)) - 1"
    and "game st = Some g"
    and "replay_loop eng g0 (puzzleMoves st) 0 (currentMoveIndex st) = Done g"
    and "replay_loop eng g0 (puzzleMoves st) 0 (currentMoveIndex st + 1) = Done g'"
    and "-1 \<le> currentMoveIndex st"
  shows "nextMove eng st =
           Finished (updateMoveDisplay (show_position (fen eng g')
              (st\<lparr>currentMoveIndex := currentMoveIndex st + 1, game := Some g'\<rparr>)))"
proof -
  have "0 \<le> currentMoveIndex st + 1" using assms(5) by simp
  from replay_loop_extend[OF this, of eng g0 "puzzleMoves st"] assms(3,4)
  have m: "(case move eng g (js_nth (puzzleMoves st) (currentMoveIndex st + 1)) of
             Throws \<Rightarrow> Aborted g | Null \<Rightarrow> Done g | Moved g'' \<Rightarrow> Done g'') = Done g'"
    by simp
  show ?thesis
  proof (cases "move eng g (js_nth (puzzleMoves st) (currentMoveIndex st + 1))")
    case (Moved g2)
    with m have "g2 = g'" by simp
    with Moved assms(1,2) show ?thesis by (simp add: nextMove_def Let_def)
  next
    case Null
    with m have "g = g'" by simp
    with Null assms(1,2) show ?thesis
      by (simp add: nextMove_def Let_def show_position_def updateMoveDisplay_def updateButtonStates_def)
  next
    case Throws
    with m show ?thesis by simp
  qed
qed

lemma replay_and_show_Done:
  assumes "originalFen st = Some f" and "new_Chess eng f = Some g0"
    and "replay_loop eng g0 (puzzleMoves st) 0 (currentMoveIndex st) = Done g'"
  shows "replay_and_show eng st =
           Finished (updateMoveDisplay (show_position (fen eng g') (st\<lparr>game := Some g'\<rparr>)))"
  using assms by (simp add: replay_and_show_def construct_def)


lemma nextMove_iterated:
  assumes st: "currentMoveIndex st = -1" "game st = Some g0"
  shows "int n < int (length (puzzleMoves st)) \<Longrightarrow>
         replay_loop eng g0 (puzzleMoves st) 0 (int n) = Done g' \<Longrightarrow>
         ((\<lambda>s. final (nextMove eng s)) ^^ Suc n) st =
           updateMoveDisplay (show_position (fen eng g')
             (st\<lparr>currentMoveIndex := int n, game := Some g'\<rparr>))"
proof (induction n arbitrary: g')
  case 0
  have "replay_loop eng g0 (puzzleMoves st) 0 (currentMoveIndex st) = Done g0"
    using st(1) by (simp add: replay_loop_past)
  moreover have "replay_loop eng g0 (puzzleMoves st) 0 (currentMoveIndex st + 1) = Done g'"
    using "0.prems"(2) st(1) by simp
  moreover have "currentMoveIndex st < int (length (puzzleMoves st)) - 1"
    using "0.prems"(1) st(1) by simp
  ultimately have "nextMove eng st =
      Finished (updateMoveDisplay (show_position (fen eng g')
         (st\<lparr>currentMoveIndex := currentMoveIndex st + 1, game := Some g'\<rparr>)))"
    using st by (intro nextMove_step) simp_all
  then show ?case using st(1) by simp
next
  case (Suc n)
  let ?ms = "puzzleMoves st"
  have full: "replay_loop eng g0 ?ms 0 (int n + 1) = Done g'"
    using Suc.prems(2) by (simp add: add.commute)
  from replay_loop_shorter[OF full, of "int n"]
  obtain g1 where g1: "replay_loop eng g0 ?ms 0 (int n) = Done g1" by auto
  let ?s = "updateMoveDisplay (show_position (fen eng g1)
             (st\<lparr>currentMoveIndex := int n, game := Some g1\<rparr>))"
  have ih: "((\<lambda>s. final (nextMove eng s)) ^^ Suc n) st = ?s"
    using Suc.IH[OF _ g1] Suc.prems(1) by simp
  have "nextMove eng ?s =
      Finished (updateMoveDisplay (show_position (fen eng g')
         (?s\<lparr>currentMoveIndex := currentMoveIndex ?s + 1, game := Some g'\<rparr>)))"
    using Suc.prems(1) g1 full by (intro nextMove_step) simp_all
  then have "final (nextMove eng ?s) =
      updateMoveDisplay (show_position (fen eng g')
         (st\<lparr>currentMoveIndex := int (Suc n), game := Some g'\<rparr>))"
    by (simp add: nav_state_collapse add.commute)
  with ih show ?case by simp
qed

section \<open>Replaying against stepping\<close>

lemma run_navs_NextMove:
  "run_navs eng (replicate n NextMove) st = ((\<lambda>s. final (nextMove eng s)) ^^ n) st"
proof (induction n arbitrary: st)
  case 0
  show ?case by (simp add: run_navs_def)
next
  case (Suc n)
  have "run_navs eng (replicate (Suc n) NextMove) st
          = run_navs eng (replicate n NextMove) (final (nextMove eng st))"
    by (simp add: run_navs_def)
  also have "\<dots> = ((\<lambda>s. final (nextMove eng s)) ^^ n) (final (nextMove eng st))"
    by (rule Suc.IH)
  also have "\<dots> = ((\<lambda>s. final (nextMove eng s)) ^^ Suc n) st"
    using funpow_swap1[of "\<lambda>s. final (nextMove eng s)" n st] by simp
  finally show ?case .
qed

text \<open>
  C2 (as amended). Take a page at cursor \<open>-1\<close> whose rules object is the one constructed
  from the starting position, and a cursor value \<open>c\<close> with \<open>0 \<le> c < N\<close> such that
  replaying the moves \<open>0..c\<close> from the starting position throws nowhere. Then \<open>c + 1\<close>
  calls of \<^verbatim>\<open>nextMove\<close> leave exactly the page that reinitialising and replaying the moves
  \<open>0..c\<close> leaves (the code shared by \<^verbatim>\<open>previousMove\<close> and \<^verbatim>\<open>goToEnd\<close>): the same rules
  object, the same displayed position, the same cursor.
\<close>

theorem replay_equals_sequential_nextMove:
  assumes "currentMoveIndex st = -1" and "game st = Some g0"
    and "originalFen st = Some f" and "new_Chess eng f = Some g0"
    and "0 \<le> c" and "c < int (length (puzzleMoves st))"
    and "replay_loop eng g0 (puzzleMoves st) 0 c = Done g'"
  shows "run_navs eng (replicate (nat (c + 1)) NextMove) st
           = final (replay_and_show eng (st\<lparr>currentMoveIndex := c\<rparr>))
         \<and> game (run_navs eng (replicate (nat (c + 1)) NextMove) st) = Some g'
         \<and> position (board (run_navs eng (replicate (nat (c + 1)) NextMove) st)) = fen eng g'"
proof -
  have c: "int (nat c) = c" "nat (c + 1) = Suc (nat c)" using assms(5) by simp_all
  have "((\<lambda>s. final (nextMove eng s)) ^^ nat (c + 1)) st =
           updateMoveDisplay (show_position (fen eng g')
             (st\<lparr>currentMoveIndex := c, game := Some g'\<rparr>))"
    using nextMove_iterated[OF assms(1,2), of "nat c" eng g'] assms(6,7) c by simp
  then have seq: "run_navs eng (replicate (nat (c + 1)) NextMove) st =
           updateMoveDisplay (show_position (fen eng g')
             (st\<lparr>currentMoveIndex := c, game := Some g'\<rparr>))"
    by (simp only: run_navs_NextMove)
  have rep: "replay_and_show eng (st\<lparr>currentMoveIndex := c\<rparr>) =
           Finished (updateMoveDisplay (show_position (fen eng g')
             (st\<lparr>currentMoveIndex := c, game := Some g'\<rparr>)))"
    using replay_and_show_Done[of "st\<lparr>currentMoveIndex := c\<rparr>" f eng g0 g'] assms(3,4,7)
    by simp
  show ?thesis unfolding seq rep by simp
qed

theorem replay_equals_sequential_nextMove_witness:
  "currentMoveIndex (at_start ThrowsError open_game) = -1
   \<and> 2 < int (length (puzzleMoves (at_start ThrowsError open_game)))
   \<and> run_navs (mini_engine ThrowsError) (replicate (nat (2 + 1)) NextMove) (at_start ThrowsError open_game)
       = final (replay_and_show (mini_engine ThrowsError)
                  ((at_start ThrowsError open_game)\<lparr>currentMoveIndex := 2\<rparr>))
   \<and> position (board (run_navs (mini_engine ThrowsError) (replicate (nat (2 + 1)) NextMove)
         (at_start ThrowsError open_game)))
       = ''rnbqkbnr/pppp1ppp/8/4p3/4P3/5N2/PPPP1PPP/RNBQKB1R b - - 0 1''"
proof -
  have "new_Chess (mini_engine ThrowsError) start_fen \<noteq> None" by code_simp
  then obtain g0 where g0: "new_Chess (mini_engine ThrowsError) start_fen = Some g0" by blast
  have h1: "currentMoveIndex (at_start ThrowsError open_game) = -1" by code_simp
  have h2: "game (at_start ThrowsError open_game) = new_Chess (mini_engine ThrowsError) start_fen" by code_simp
  have h3: "originalFen (at_start ThrowsError open_game) = Some start_fen" by code_simp
  have h6: "2 < int (length (puzzleMoves (at_start ThrowsError open_game)))" by code_simp
  have h7: "case new_Chess (mini_engine ThrowsError) start_fen of None \<Rightarrow> False | Some g \<Rightarrow>
     (case replay_loop (mini_engine ThrowsError) g (puzzleMoves (at_start ThrowsError open_game)) 0 2 of
        Aborted a \<Rightarrow> False
      | Done g' \<Rightarrow> fen (mini_engine ThrowsError) g' = ''rnbqkbnr/pppp1ppp/8/4p3/4P3/5N2/PPPP1PPP/RNBQKB1R b - - 0 1'')"
    by code_simp
  then obtain g' where g': "replay_loop (mini_engine ThrowsError) g0 (puzzleMoves (at_start ThrowsError open_game)) 0 2 = Done g'"
    and f': "fen (mini_engine ThrowsError) g' = ''rnbqkbnr/pppp1ppp/8/4p3/4P3/5N2/PPPP1PPP/RNBQKB1R b - - 0 1''"
    using g0 by (auto split: replay.splits)
  have h2': "game (at_start ThrowsError open_game) = Some g0" using h2 g0 by simp
  have h5: "(0::int) \<le> 2" by simp
  note r = replay_equals_sequential_nextMove [OF h1 h2' h3 g0 h5 h6 g']
  from r have "position (board (run_navs (mini_engine ThrowsError) (replicate (nat (2 + 1)) NextMove)
         (at_start ThrowsError open_game))) = fen (mini_engine ThrowsError) g'"
    by blast
  from this f' have p: "position (board (run_navs (mini_engine ThrowsError) (replicate (nat (2 + 1)) NextMove)
         (at_start ThrowsError open_game)))
       = ''rnbqkbnr/pppp1ppp/8/4p3/4P3/5N2/PPPP1PPP/RNBQKB1R b - - 0 1''"
    by (rule trans)
  from r h1 h6 p show ?thesis by blast
qed

text \<open>
  C2 as stated fails where a move throws. In the puzzle \<open>bad_second\<close> the move at index 1
  is refused. \<^verbatim>\<open>goToEnd\<close> stops at it: the rules object holds the position after move 0
  and the widget still shows the starting position. Three calls of \<^verbatim>\<open>nextMove\<close> from cursor
  \<open>-1\<close> lose only the second one: the rules object and the widget hold the position after
  the moves 0 and 2.
\<close>

theorem replay_equals_sequential_nextMove_counterexample:
  "currentMoveIndex (at_start ThrowsError bad_second) = -1
   \<and> length (puzzleMoves (at_start ThrowsError bad_second)) = 3
   \<and> map_option mini_fen (game (final (goToEnd (mini_engine ThrowsError) (at_start ThrowsError bad_second))))
       = Some ''rnbqkbnr/pppppppp/8/8/4P3/8/PPPP1PPP/RNBQKBNR b - - 0 1''
   \<and> position (board (final (goToEnd (mini_engine ThrowsError) (at_start ThrowsError bad_second))))
       = start_fen
   \<and> map_option mini_fen (game (run_navs (mini_engine ThrowsError) [NextMove, NextMove, NextMove]
         (at_start ThrowsError bad_second)))
       = Some ''rnbqkbnr/pppp1ppp/8/4p3/4P3/8/PPPP1PPP/RNBQKBNR w - - 0 1''
   \<and> position (board (run_navs (mini_engine ThrowsError) [NextMove, NextMove, NextMove]
         (at_start ThrowsError bad_second)))
       = ''rnbqkbnr/pppp1ppp/8/4p3/4P3/8/PPPP1PPP/RNBQKBNR w - - 0 1''"
  by code_simp


section \<open>The cursor, the rules object and the widget in step\<close>

lemma in_syncD:
  assumes "in_sync eng st"
  obtains f g0 g where "originalFen st = Some f" and "new_Chess eng f = Some g0"
    and "-1 \<le> currentMoveIndex st" and "currentMoveIndex st < int (length (puzzleMoves st))"
    and "replay_loop eng g0 (puzzleMoves st) 0 (currentMoveIndex st) = Done g"
    and "game st = Some g"
    and "position (board st) = (if currentMoveIndex st = -1 then f else fen eng g)"
  using assms by (auto simp: in_sync_def split: option.splits replay.splits)

lemma in_syncI:
  assumes "originalFen st = Some f" and "new_Chess eng f = Some g0"
    and "-1 \<le> currentMoveIndex st" and "currentMoveIndex st < int (length (puzzleMoves st))"
    and "replay_loop eng g0 (puzzleMoves st) 0 (currentMoveIndex st) = Done g"
    and "game st = Some g"
    and "position (board st) = (if currentMoveIndex st = -1 then f else fen eng g)"
  shows "in_sync eng st"
  using assms by (simp add: in_sync_def)

lemma replay_succeedsD:
  assumes "replay_succeeds eng f ms" and "new_Chess eng f = Some g0"
  obtains gN where "replay_loop eng g0 ms 0 (int (length ms) - 1) = Done gN"
  using assms by (auto simp: replay_succeeds_def split: replay.splits)

lemma replay_prefix_Done:
  assumes "replay_succeeds eng f ms" and "new_Chess eng f = Some g0"
    and "-1 \<le> c" and "c < int (length ms)"
  obtains g where "replay_loop eng g0 ms 0 c = Done g"
proof -
  from replay_succeedsD[OF assms(1,2)] obtain gN
    where "replay_loop eng g0 ms 0 (int (length ms) - 1) = Done gN" .
  from replay_loop_shorter[OF this, of c] assms(3,4) that show ?thesis by auto
qed

lemma goToStart_loaded:
  assumes "originalFen st = Some f" and "new_Chess eng f = Some g0"
  shows "goToStart eng st =
     Finished (updateMoveDisplay (show_position f (st\<lparr>currentMoveIndex := -1, game := Some g0\<rparr>)))"
  using assms by (simp add: goToStart_def)

lemma goToStart_in_sync:
  assumes "originalFen st = Some f" and "new_Chess eng f = Some g0" and "puzzleMoves st \<noteq> []"
  shows "in_sync eng (final (goToStart eng st))"
  using assms
  by (intro in_syncI[where f = f and g = g0 and ?g0.0 = g0])
     (simp_all add: goToStart_loaded replay_loop_past)

lemma replay_and_show_in_sync:
  assumes "originalFen st = Some f" and "new_Chess eng f = Some g0"
    and "replay_succeeds eng f (puzzleMoves st)"
    and "0 \<le> currentMoveIndex st" and "currentMoveIndex st < int (length (puzzleMoves st))"
  shows "in_sync eng (final (replay_and_show eng st))"
proof -
  from replay_prefix_Done[OF assms(3,2), of "currentMoveIndex st"] assms(4,5)
  obtain g where g: "replay_loop eng g0 (puzzleMoves st) 0 (currentMoveIndex st) = Done g"
    by auto
  show ?thesis
    using assms g
    by (intro in_syncI[where f = f and g = g and ?g0.0 = g0])
       (simp_all add: replay_and_show_Done[OF assms(1,2) g])
qed

lemma nextMove_in_sync:
  assumes sync: "in_sync eng st" and f: "originalFen st = Some f"
    and ok: "replay_succeeds eng f (puzzleMoves st)"
  shows "in_sync eng (final (nextMove eng st))"
proof (cases "currentMoveIndex st < int (length (puzzleMoves st)) - 1")
  case False
  then show ?thesis using sync by (simp add: nextMove_def)
next
  case True
  from sync f obtain g0 g where g0: "new_Chess eng f = Some g0"
    and lo: "-1 \<le> currentMoveIndex st"
    and g: "replay_loop eng g0 (puzzleMoves st) 0 (currentMoveIndex st) = Done g"
    and gm: "game st = Some g"
    by (auto elim!: in_syncD)
  from replay_prefix_Done[OF ok g0, of "currentMoveIndex st + 1"] lo True
  obtain g' where g': "replay_loop eng g0 (puzzleMoves st) 0 (currentMoveIndex st + 1) = Done g'"
    by auto
  note step = nextMove_step[OF True gm g g' lo]
  show ?thesis
    using f g0 lo True g'
    by (intro in_syncI[where f = f and g = g' and ?g0.0 = g0]) (simp_all add: step)
qed

lemma previousMove_in_sync:
  assumes sync: "in_sync eng st" and f: "originalFen st = Some f"
    and ok: "replay_succeeds eng f (puzzleMoves st)"
  shows "in_sync eng (final (previousMove eng st))"
proof (cases "currentMoveIndex st > -1")
  case False
  then show ?thesis using sync by (simp add: previousMove_def)
next
  case True
  from sync f obtain g0 where g0: "new_Chess eng f = Some g0"
    and hi: "currentMoveIndex st < int (length (puzzleMoves st))"
    by (auto elim!: in_syncD)
  let ?st1 = "st\<lparr>currentMoveIndex := currentMoveIndex st - 1\<rparr>"
  show ?thesis
  proof (cases "currentMoveIndex st = 0")
    case z: True
    have "puzzleMoves ?st1 \<noteq> []" using hi z by auto
    from goToStart_in_sync[of ?st1 f eng g0, OF _ g0 this] f
    have "in_sync eng (final (goToStart eng ?st1))" by simp
    then show ?thesis using True z by (simp add: previousMove_def Let_def)
  next
    case nz: False
    have "in_sync eng (final (replay_and_show eng ?st1))"
      using f g0 ok True nz hi by (intro replay_and_show_in_sync[where f = f and ?g0.0 = g0]) simp_all
    then show ?thesis using True nz by (simp add: previousMove_def Let_def)
  qed
qed

lemma goToEnd_in_sync:
  assumes f: "originalFen st = Some f" and g0: "new_Chess eng f = Some g0"
    and ok: "replay_succeeds eng f (puzzleMoves st)" and ne: "puzzleMoves st \<noteq> []"
  shows "in_sync eng (final (goToEnd eng st))"
  unfolding goToEnd_def
  using assms by (intro replay_and_show_in_sync[where f = f and ?g0.0 = g0]) simp_all

lemma handlers_keep_puzzle:
  "originalFen (final (goToStart eng st)) = originalFen st"
  "puzzleMoves (final (goToStart eng st)) = puzzleMoves st"
  "originalFen (final (replay_and_show eng st)) = originalFen st"
  "puzzleMoves (final (replay_and_show eng st)) = puzzleMoves st"
  "originalFen (final (nextMove eng st)) = originalFen st"
  "puzzleMoves (final (nextMove eng st)) = puzzleMoves st"
  by (simp_all add: goToStart_def replay_and_show_def nextMove_def Let_def
        split: option.splits replay.splits move_result.splits)

lemma nav_step_keeps_puzzle:
  "originalFen (nav_step eng st op) = originalFen st \<and> puzzleMoves (nav_step eng st op) = puzzleMoves st"
  by (cases op) (simp_all add: handlers_keep_puzzle previousMove_def goToEnd_def Let_def)

lemma nav_step_in_sync:
  assumes "in_sync eng st" and "originalFen st = Some f"
    and "replay_succeeds eng f (puzzleMoves st)" and "puzzleMoves st \<noteq> []"
  shows "in_sync eng (nav_step eng st op)"
proof -
  from assms(1,2) obtain g0 where g0: "new_Chess eng f = Some g0"
    by (auto elim!: in_syncD)
  show ?thesis
  proof (cases op)
    case GoToStart
    then show ?thesis using goToStart_in_sync[OF assms(2) g0 assms(4)] by simp
  next
    case PreviousMove
    then show ?thesis using previousMove_in_sync[OF assms(1,2,3)] by simp
  next
    case NextMove
    then show ?thesis using nextMove_in_sync[OF assms(1,2,3)] by simp
  next
    case GoToEnd
    then show ?thesis using goToEnd_in_sync[OF assms(2) g0 assms(3,4)] by simp
  qed
qed

lemma run_navs_in_sync:
  assumes "in_sync eng st" and "originalFen st = Some f"
    and "replay_succeeds eng f (puzzleMoves st)" and "puzzleMoves st \<noteq> []"
  shows "in_sync eng (run_navs eng ops st) \<and> originalFen (run_navs eng ops st) = Some f
         \<and> puzzleMoves (run_navs eng ops st) = puzzleMoves st"
  using assms
proof (induction ops arbitrary: st)
  case Nil
  then show ?case by (simp add: run_navs_def)
next
  case (Cons op ops)
  have "in_sync eng (nav_step eng st op)" by (rule nav_step_in_sync[OF Cons.prems])
  moreover have "originalFen (nav_step eng st op) = Some f" "puzzleMoves (nav_step eng st op) = puzzleMoves st"
    using nav_step_keeps_puzzle[of eng st op] Cons.prems(2) by simp_all
  ultimately show ?case
    using Cons.IH[of "nav_step eng st op"] Cons.prems(3,4) by (simp add: run_navs_def)
qed


lemma split_on_nonempty: "split_on sep s \<noteq> []"
  by (induction s) (auto split: list.splits)

lemma materialAnalysis_frame [simp]:
  "board (materialAnalysis eng pz st) = board st"
  "game (materialAnalysis eng pz st) = game st"
  "puzzleMoves (materialAnalysis eng pz st) = puzzleMoves st"
  "currentMoveIndex (materialAnalysis eng pz st) = currentMoveIndex st"
  "originalFen (materialAnalysis eng pz st) = originalFen st"
  "timers (materialAnalysis eng pz st) = timers st"
  by (simp_all add: materialAnalysis_def displayMaterialAnalysis_def
        split: list.splits option.splits)

lemma fetchRandomPuzzle_success:
  assumes "js_nth data (floor_times r (length data)) = Some pz"
    and "new_Chess eng (FEN pz) = Some g0"
  shows "originalFen (fetchRandomPuzzle eng (Some data) r page) = Some (FEN pz)"
    and "game (fetchRandomPuzzle eng (Some data) r page) = Some g0"
    and "currentMoveIndex (fetchRandomPuzzle eng (Some data) r page) = -1"
    and "puzzleMoves (fetchRandomPuzzle eng (Some data) r page) = split_on CHR '' '' (Moves pz)"
    and "position (board (fetchRandomPuzzle eng (Some data) r page)) = FEN pz"
    and "orientation (board (fetchRandomPuzzle eng (Some data) r page))
           = (if turn eng g0 = Black then White else Black)"
  using assms
  by (simp_all add: fetchRandomPuzzle_def Let_def createNavigationControls_def show_position_def)

lemma fire_timer_in_sync:
  assumes f: "originalFen st = Some f" and g0: "new_Chess eng f = Some g0"
    and ok: "replay_succeeds eng f (puzzleMoves st)" and ne: "puzzleMoves st \<noteq> []"
    and c: "currentMoveIndex st = -1" and gm: "game st = Some g0"
    and p: "position (board st) = f"
  shows "in_sync eng (final (fire_timer eng st)) \<and> originalFen (final (fire_timer eng st)) = Some f
         \<and> puzzleMoves (final (fire_timer eng st)) = puzzleMoves st"
proof (cases "timers st")
  case Nil
  have "in_sync eng st"
    using f g0 c gm p ne
    by (intro in_syncI[where f = f and g = g0 and ?g0.0 = g0]) (simp_all add: replay_loop_past)
  with Nil f show ?thesis by (simp add: fire_timer_def)
next
  case (Cons d ds)
  let ?ms = "puzzleMoves st"
  from replay_prefix_Done[OF ok g0, of 0] ne
  obtain g1 where g1: "replay_loop eng g0 ?ms 0 0 = Done g1" by auto
  have "replay_loop eng g0 ?ms 0 (-1 + 1) =
          (case replay_loop eng g0 ?ms 0 (-1) of
             Aborted a \<Rightarrow> Aborted a
           | Done g' \<Rightarrow>
               (case move eng g' (js_nth ?ms (-1 + 1)) of
                  Throws \<Rightarrow> Aborted g' | Null \<Rightarrow> Done g' | Moved g'' \<Rightarrow> Done g''))"
    by (rule replay_loop_extend) simp
  with g1 have m: "(case move eng g0 (js_nth ?ms 0) of
                  Throws \<Rightarrow> Aborted g0 | Null \<Rightarrow> Done g0 | Moved g'' \<Rightarrow> Done g'') = Done g1"
    by (simp add: replay_loop_past)
  let ?st' = "st\<lparr>timers := ds\<rparr>"
  have fin: "playSetupMove eng ?st' =
          Finished (updateMoveDisplay
             ((show_position (fen eng g1) (?st'\<lparr>game := Some g1\<rparr>))\<lparr>currentMoveIndex := 0\<rparr>))"
    using m gm
    by (cases "move eng g0 (js_nth ?ms 0)")
       (simp_all add: playSetupMove_def setup_try_def show_position_def
          updateMoveDisplay_def updateButtonStates_def)
  have "in_sync eng (final (playSetupMove eng ?st'))"
    using f g0 ne g1
    by (intro in_syncI[where f = f and g = g1 and ?g0.0 = g0]) (simp_all add: fin)
  with Cons f show ?thesis by (simp add: fire_timer_def fin)
qed

lemma apply_all_append:
  "apply_all eng g (xs @ ys) =
     (case apply_all eng g xs of None \<Rightarrow> None | Some g' \<Rightarrow> apply_all eng g' ys)"
  by (induction xs arbitrary: g) (simp_all split: move_result.splits)

lemma apply_all_prefix:
  assumes "apply_all eng g ms = Some gN"
  obtains g' where "apply_all eng g (take k ms) = Some g'"
proof -
  have "(case apply_all eng g (take k ms) of
           None \<Rightarrow> None
         | Some g' \<Rightarrow> apply_all eng g' (drop k ms)) = Some gN"
    using assms apply_all_append[of eng g "take k ms" "drop k ms"] by simp
  then show ?thesis using that by (cases "apply_all eng g (take k ms)") simp_all
qed

text \<open>On a list whose moves all apply, the replay loop of the handlers applies them all.\<close>

lemma replay_loop_applied:
  "k \<le> length ms \<Longrightarrow> apply_all eng g0 (take k ms) = Some g \<Longrightarrow>
   replay_loop eng g0 ms 0 (int k - 1) = Done g"
proof (induction k arbitrary: g)
  case 0
  then show ?case by (simp add: replay_loop_past)
next
  case (Suc k)
  from Suc.prems(1) have k: "k < length ms" by simp
  then have tk: "take (Suc k) ms = take k ms @ [ms ! k]" by (simp add: take_Suc_conv_app_nth)
  from Suc.prems(2) obtain g1 where g1: "apply_all eng g0 (take k ms) = Some g1"
    and mv: "move eng g1 (Some (ms ! k)) = Moved g"
    by (auto simp: tk apply_all_append split: option.splits move_result.splits)
  have ih: "replay_loop eng g0 ms 0 (int k - 1) = Done g1" using Suc.IH[OF _ g1] k by simp
  have nth: "js_nth ms (int k) = Some (ms ! k)" using k by (simp add: js_nth_def)
  have "replay_loop eng g0 ms 0 (int k - 1 + 1) =
          (case replay_loop eng g0 ms 0 (int k - 1) of
             Aborted a \<Rightarrow> Aborted a
           | Done g' \<Rightarrow>
               (case move eng g' (js_nth ms (int k - 1 + 1)) of
                  Throws \<Rightarrow> Aborted g' | Null \<Rightarrow> Done g' | Moved g'' \<Rightarrow> Done g''))"
    by (rule replay_loop_extend) simp
  then have "replay_loop eng g0 ms 0 (int k - 1 + 1) = Done g" by (simp add: ih nth mv)
  then show ?case by simp
qed

lemma puzzle_applies_replay_succeeds:
  assumes "puzzle_applies eng f ms"
  shows "replay_succeeds eng f ms"
proof -
  from assms obtain g0 gN where g0: "new_Chess eng f = Some g0"
    and gN: "apply_all eng g0 ms = Some gN"
    by (auto simp: puzzle_applies_def split: option.splits)
  from replay_loop_applied[of "length ms" ms eng g0 gN] gN
  have "replay_loop eng g0 ms 0 (int (length ms) - 1) = Done gN" by simp
  with g0 show ?thesis by (simp add: replay_succeeds_def)
qed

lemma in_sync_applied_position:
  assumes sync: "in_sync eng st" and f: "originalFen st = Some f"
    and legal: "puzzle_applies eng f (puzzleMoves st)"
  shows "applied_position eng f (puzzleMoves st) (currentMoveIndex st) = Some (position (board st))"
proof -
  let ?ms = "puzzleMoves st" and ?c = "currentMoveIndex st"
  from sync f obtain g0 g where g0: "new_Chess eng f = Some g0"
    and lo: "-1 \<le> ?c" and hi: "?c < int (length ?ms)"
    and g: "replay_loop eng g0 ?ms 0 ?c = Done g"
    and p: "position (board st) = (if ?c = -1 then f else fen eng g)"
    by (auto elim!: in_syncD)
  from legal g0 obtain gN where "apply_all eng g0 ?ms = Some gN"
    by (auto simp: puzzle_applies_def)
  from apply_all_prefix[OF this, of "nat (?c + 1)"]
  obtain g' where g': "apply_all eng g0 (take (nat (?c + 1)) ?ms) = Some g'" .
  have "replay_loop eng g0 ?ms 0 (int (nat (?c + 1)) - 1) = Done g'"
    using lo hi by (intro replay_loop_applied[OF _ g']) simp
  with g lo have "g' = g" by simp
  with g0 g' p show ?thesis by (simp add: applied_position_def)
qed

lemma refused_drop_changes_nothing:
  "refused_here eng st e \<Longrightarrow> e = Drop source target \<Longrightarrow> event_step eng st e = st"
  by (auto simp: onDrop_def split: option.splits move_result.splits)

lemma run_events_in_sync:
  assumes "in_sync eng st" and "originalFen st = Some f"
    and "replay_succeeds eng f (puzzleMoves st)" and "puzzleMoves st \<noteq> []"
    and "drops_refused eng st evs"
  shows "in_sync eng (run_events eng evs st) \<and> originalFen (run_events eng evs st) = Some f
         \<and> puzzleMoves (run_events eng evs st) = puzzleMoves st"
  using assms
proof (induction evs arbitrary: st)
  case Nil
  then show ?case by (simp add: run_events_def)
next
  case (Cons e evs)
  have step: "in_sync eng (event_step eng st e) \<and> originalFen (event_step eng st e) = Some f
              \<and> puzzleMoves (event_step eng st e) = puzzleMoves st"
  proof (cases e)
    case (Nav n)
    with nav_step_in_sync[OF Cons.prems(1-4), of n] nav_step_keeps_puzzle[of eng st n] Cons.prems(2)
    show ?thesis by simp
  next
    case (Drop source target)
    from Cons.prems(5) have "refused_here eng st e" by simp
    from refused_drop_changes_nothing[OF this Drop] Cons.prems(1,2) show ?thesis by simp
  qed
  moreover from Cons.prems(5) have "drops_refused eng (event_step eng st e) evs" by simp
  ultimately show ?case
    using Cons.IH[of "event_step eng st e"] Cons.prems(3,4) by (simp add: run_events_def)
qed

section \<open>The displayed position under navigation\<close>

text \<open>
  C1 (as amended). Load a puzzle whose moves all apply, in order, from its starting
  position, let the setup timeout fire before anything else happens, and then run any
  sequence of the four navigation operations and of drops that the rules engine refuses.
  Right after the load, and after every such sequence, the cursor is within
  \<open>-1 .. N - 1\<close> and the position the widget shows is the result of applying the moves
  \<open>0..currentMoveIndex\<close> in order, every one of them and none skipped, to the starting
  position.
\<close>

theorem navigation_shows_replayed_prefix:
  assumes "js_nth data (floor_times r (length data)) = Some pz"
    and "puzzle_applies eng (FEN pz) (split_on CHR '' '' (Moves pz))"
    and "drops_refused eng
           (final (fire_timer eng (fetchRandomPuzzle eng (Some data) r initial_page))) evs"
  shows "let st0 = fetchRandomPuzzle eng (Some data) r initial_page;
             st = run_events eng evs (final (fire_timer eng st0))
         in applied_position eng (FEN pz) (puzzleMoves st0) (currentMoveIndex st0)
              = Some (position (board st0))
          \<and> puzzleMoves st = split_on CHR '' '' (Moves pz)
          \<and> -1 \<le> currentMoveIndex st \<and> currentMoveIndex st < int (length (puzzleMoves st))
          \<and> applied_position eng (FEN pz) (puzzleMoves st) (currentMoveIndex st)
              = Some (position (board st))"
proof -
  let ?f = "FEN pz" and ?ms = "split_on CHR '' '' (Moves pz)"
  let ?A = "fetchRandomPuzzle eng (Some data) r initial_page"
  let ?B = "final (fire_timer eng ?A)"
  let ?C = "run_events eng evs ?B"
  from assms(2) obtain g0 where g0: "new_Chess eng ?f = Some g0"
    by (auto simp: puzzle_applies_def split: option.splits)
  note ld = fetchRandomPuzzle_success[OF assms(1) g0, of initial_page]
  have ne: "puzzleMoves ?A \<noteq> []" by (simp add: ld split_on_nonempty)
  have legal: "puzzle_applies eng ?f (puzzleMoves ?A)" using assms(2) by (simp add: ld)
  have ok: "replay_succeeds eng ?f (puzzleMoves ?A)"
    by (rule puzzle_applies_replay_succeeds[OF legal])
  have s0: "in_sync eng ?A"
    using ld g0 ne
    by (intro in_syncI[where f = ?f and g = g0 and ?g0.0 = g0]) (simp_all add: replay_loop_past)
  from fire_timer_in_sync[OF ld(1) g0 ok ne ld(3) ld(2) ld(5)]
  have s1: "in_sync eng ?B" "originalFen ?B = Some ?f" "puzzleMoves ?B = ?ms"
    by (simp_all add: ld)
  have ok1: "replay_succeeds eng ?f (puzzleMoves ?B)" using ok s1(3) ld(4) by simp
  have ne1: "puzzleMoves ?B \<noteq> []" using s1(3) by (simp add: split_on_nonempty)
  note r = run_events_in_sync[OF s1(1,2) ok1 ne1 assms(3)]
  have s: "in_sync eng ?C" "originalFen ?C = Some ?f" "puzzleMoves ?C = ?ms"
    using r s1(3) by simp_all
  have legalC: "puzzle_applies eng ?f (puzzleMoves ?C)" using assms(2) s(3) by simp
  have a: "applied_position eng ?f (puzzleMoves ?A) (currentMoveIndex ?A)
             = Some (position (board ?A))"
    by (rule in_sync_applied_position[OF s0 ld(1) legal])
  have b: "applied_position eng ?f (puzzleMoves ?C) (currentMoveIndex ?C)
             = Some (position (board ?C))"
    by (rule in_sync_applied_position[OF s(1,2) legalC])
  have c: "-1 \<le> currentMoveIndex ?C" "currentMoveIndex ?C < int (length (puzzleMoves ?C))"
    using s(1) by (auto elim!: in_syncD)
  show ?thesis using a b c s(3) by (simp add: Let_def)
qed

theorem navigation_shows_replayed_prefix_witness:
  "js_nth [open_game] (floor_times (UnitDouble 0 0) (length [open_game])) = Some open_game
   \<and> puzzle_applies (mini_engine ThrowsError) (FEN open_game) (split_on CHR '' '' (Moves open_game))
   \<and> drops_refused (mini_engine ThrowsError)
        (final (fire_timer (mini_engine ThrowsError)
           (fetchRandomPuzzle (mini_engine ThrowsError) (Some [open_game]) (UnitDouble 0 0) initial_page)))
        [Nav NextMove, Drop ''a3'' ''a4'', Nav NextMove, Nav PreviousMove, Nav GoToStart, Nav GoToEnd]
   \<and> (let st0 = fetchRandomPuzzle (mini_engine ThrowsError) (Some [open_game]) (UnitDouble 0 0) initial_page;
           st = run_events (mini_engine ThrowsError)
                  [Nav NextMove, Drop ''a3'' ''a4'', Nav NextMove, Nav PreviousMove, Nav GoToStart,
                   Nav GoToEnd]
                  (final (fire_timer (mini_engine ThrowsError) st0))
       in applied_position (mini_engine ThrowsError) (FEN open_game) (puzzleMoves st0) (currentMoveIndex st0)
            = Some (position (board st0))
        \<and> puzzleMoves st = split_on CHR '' '' (Moves open_game)
        \<and> -1 \<le> currentMoveIndex st \<and> currentMoveIndex st < int (length (puzzleMoves st))
        \<and> applied_position (mini_engine ThrowsError) (FEN open_game) (puzzleMoves st) (currentMoveIndex st)
            = Some (position (board st)))"
proof -
  have h1: "js_nth [open_game] (floor_times (UnitDouble 0 0) (length [open_game])) = Some open_game"
    by code_simp
  have h2: "puzzle_applies (mini_engine ThrowsError) (FEN open_game)
              (split_on CHR '' '' (Moves open_game))"
    by code_simp
  have h3: "drops_refused (mini_engine ThrowsError)
        (final (fire_timer (mini_engine ThrowsError)
           (fetchRandomPuzzle (mini_engine ThrowsError) (Some [open_game]) (UnitDouble 0 0) initial_page)))
        [Nav NextMove, Drop ''a3'' ''a4'', Nav NextMove, Nav PreviousMove, Nav GoToStart, Nav GoToEnd]"
    by code_simp
  from h1 h2 h3 navigation_shows_replayed_prefix [OF h1 h2 h3] show ?thesis by blast
qed

text \<open>
  C1 as stated fails without any drop. First, navigation does not wait for the setup
  timeout: on the puzzle \<open>open_game\<close>, whose moves are all legal, two calls of \<^verbatim>\<open>nextMove\<close>
  before the timeout bring the cursor to 1; the callback then tries move 0 again, which
  the engine refuses, and sets the cursor by itself: to 0 where the refusal is \<^verbatim>\<open>null\<close>,
  to \<open>-1\<close> where it is a throw, while the widget shows the position after the moves 0 and
  1. Second, no handler looks at what \<^verbatim>\<open>game.move\<close> answers: on the puzzle \<open>bad_second\<close>
  two calls of \<^verbatim>\<open>nextMove\<close> after the setup move bring the cursor to 2 and push the position
  after the moves 0 and 2, the move at index 1 having been skipped; the moves \<open>0..2\<close> cannot
  be applied in order at all.
\<close>

theorem navigation_shows_replayed_prefix_counterexample:
  "currentMoveIndex (final (fire_timer (mini_engine ReturnsNull)
       (run_navs (mini_engine ReturnsNull) [NextMove, NextMove] (loaded ReturnsNull open_game)))) = 0
   \<and> position (board (final (fire_timer (mini_engine ReturnsNull)
       (run_navs (mini_engine ReturnsNull) [NextMove, NextMove] (loaded ReturnsNull open_game)))))
       = ''rnbqkbnr/pppp1ppp/8/4p3/4P3/8/PPPP1PPP/RNBQKBNR w - - 0 1''
   \<and> applied_position (mini_engine ReturnsNull) start_fen [''e2e4'', ''e7e5'', ''g1f3''] 0
       = Some ''rnbqkbnr/pppppppp/8/8/4P3/8/PPPP1PPP/RNBQKBNR b - - 0 1''
   \<and> currentMoveIndex (final (fire_timer (mini_engine ThrowsError)
       (run_navs (mini_engine ThrowsError) [NextMove, NextMove] (loaded ThrowsError open_game)))) = -1
   \<and> position (board (final (fire_timer (mini_engine ThrowsError)
       (run_navs (mini_engine ThrowsError) [NextMove, NextMove] (loaded ThrowsError open_game)))))
       = ''rnbqkbnr/pppp1ppp/8/4p3/4P3/8/PPPP1PPP/RNBQKBNR w - - 0 1''
   \<and> applied_position (mini_engine ThrowsError) start_fen [''e2e4'', ''e7e5'', ''g1f3''] (-1)
       = Some start_fen
   \<and> currentMoveIndex (run_navs (mini_engine ThrowsError) [NextMove, NextMove]
       (ready ThrowsError bad_second)) = 2
   \<and> puzzleMoves (run_navs (mini_engine ThrowsError) [NextMove, NextMove]
       (ready ThrowsError bad_second)) = [''e2e4'', ''e2e4'', ''e7e5'']
   \<and> position (board (run_navs (mini_engine ThrowsError) [NextMove, NextMove]
       (ready ThrowsError bad_second)))
       = ''rnbqkbnr/pppp1ppp/8/4p3/4P3/8/PPPP1PPP/RNBQKBNR w - - 0 1''
   \<and> applied_position (mini_engine ThrowsError) start_fen [''e2e4'', ''e2e4'', ''e7e5''] 2 = None"
  by code_simp

text \<open>
  A drop that the engine accepts is outside the theorem: \<^verbatim>\<open>onDrop\<close> has then applied
  the move to the rules object, while the widget and the cursor are as before.
\<close>

lemma accepted_drops_stay_applied:
  "currentMoveIndex (dragged ThrowsError) = 0
   \<and> position (board (dragged ThrowsError))
       = ''rnbqkbnr/pppppppp/8/8/4P3/8/PPPP1PPP/RNBQKBNR b - - 0 1''
   \<and> map_option mini_fen (game (dragged ThrowsError))
       = Some ''rnbqkb1r/pppppppp/5n2/8/4P3/2N5/PPPP1PPP/R1BQKBNR b - - 0 1''"
  by code_simp

section \<open>Going to the start, to the end and back\<close>

lemma goToStart_unloaded:
  assumes "construct eng (originalFen st) = None"
  shows "goToStart eng st = Raised (st\<lparr>currentMoveIndex := -1\<rparr>)"
  using assms by (simp add: goToStart_def construct_def split: option.splits)

lemma goToEnd_unloaded:
  assumes "construct eng (originalFen st) = None"
  shows "goToEnd eng st = Raised (st\<lparr>currentMoveIndex := int (length (puzzleMoves st)) - 1\<rparr>)"
  using assms by (simp add: goToEnd_def replay_and_show_def)

lemma goToStart_absorbs:
  assumes "originalFen st' = originalFen st" and "puzzleMoves st' = puzzleMoves st"
    and "panel st' = panel st" and "timers st' = timers st"
    and "orientation (board st') = orientation (board st)"
    and "construct eng (originalFen st) = None \<longrightarrow>
           board st' = board st \<and> game st' = game st \<and> moveInfo st' = moveInfo st
           \<and> disabled st' = disabled st"
  shows "final (goToStart eng st') = final (goToStart eng st)"
proof (cases "construct eng (originalFen st)")
  case None
  with assms show ?thesis
    by (simp add: goToStart_unloaded) 
next
  case (Some g0)
  then obtain f where f: "originalFen st = Some f" "new_Chess eng f = Some g0"
    by (auto simp: construct_def split: option.splits)
  show ?thesis
    using assms(1-5) f
    by (simp add: goToStart_loaded[where f = f and ?g0.0 = g0]
          updateMoveDisplay_def updateButtonStates_def show_position_def)
qed


lemma handlers_keep_page:
  "panel (final (goToStart eng st)) = panel st"
  "timers (final (goToStart eng st)) = timers st"
  "orientation (board (final (goToStart eng st))) = orientation (board st)"
  "originalFen (final (goToEnd eng st)) = originalFen st"
  "puzzleMoves (final (goToEnd eng st)) = puzzleMoves st"
  "panel (final (goToEnd eng st)) = panel st"
  "timers (final (goToEnd eng st)) = timers st"
  "orientation (board (final (goToEnd eng st))) = orientation (board st)"
  by (simp_all add: goToStart_def goToEnd_def replay_and_show_def Let_def
        split: option.splits replay.splits)

text \<open>
  C9. \<^verbatim>\<open>goToStart\<close>, \<^verbatim>\<open>goToEnd\<close>, \<^verbatim>\<open>goToStart\<close> in a row leave the page that a single
  \<^verbatim>\<open>goToStart\<close> leaves, the displayed position included; for a loaded puzzle (the
  constructor accepts its starting position) that position is the starting position.
\<close>

theorem start_end_start_is_start:
  "final (goToStart eng (final (goToEnd eng (final (goToStart eng st)))))
     = final (goToStart eng st)
   \<and> (originalFen st = Some f \<and> new_Chess eng f \<noteq> None \<longrightarrow>
        position (board (final (goToStart eng (final (goToEnd eng (final (goToStart eng st)))))))
          = f)"
proof -
  let ?A = "final (goToStart eng st)"
  let ?B = "final (goToEnd eng ?A)"
  have fA: "originalFen ?A = originalFen st" by (simp add: handlers_keep_puzzle)
  have idem: "final (goToStart eng ?A) = ?A"
  proof (rule goToStart_absorbs)
    show "construct eng (originalFen st) = None \<longrightarrow>
           board ?A = board st \<and> game ?A = game st \<and> moveInfo ?A = moveInfo st
           \<and> disabled ?A = disabled st"
      by (simp add: goToStart_unloaded)
  qed (simp_all add: handlers_keep_puzzle handlers_keep_page)
  have "final (goToStart eng ?B) = final (goToStart eng ?A)"
  proof (rule goToStart_absorbs)
    show "construct eng (originalFen ?A) = None \<longrightarrow>
           board ?B = board ?A \<and> game ?B = game ?A \<and> moveInfo ?B = moveInfo ?A
           \<and> disabled ?B = disabled ?A"
      by (simp add: goToEnd_unloaded)
  qed (simp_all add: handlers_keep_page)
  with idem have eq: "final (goToStart eng ?B) = ?A" by simp
  have "position (board ?A) = f" if "originalFen st = Some f" "new_Chess eng f \<noteq> None"
    using that by (auto simp: goToStart_loaded)
  with eq show ?thesis by simp
qed

theorem start_end_start_is_start_witness:
  "originalFen (ready ThrowsError open_game) = Some start_fen
   \<and> new_Chess (mini_engine ThrowsError) start_fen \<noteq> None
   \<and> final (goToStart (mini_engine ThrowsError) (final (goToEnd (mini_engine ThrowsError)
        (final (goToStart (mini_engine ThrowsError) (ready ThrowsError open_game))))))
       = final (goToStart (mini_engine ThrowsError) (ready ThrowsError open_game))
   \<and> position (board (final (goToStart (mini_engine ThrowsError) (final (goToEnd (mini_engine ThrowsError)
        (final (goToStart (mini_engine ThrowsError) (ready ThrowsError open_game))))))))
       = start_fen"
proof -
  have h1: "originalFen (ready ThrowsError open_game) = Some start_fen" by code_simp
  have h2: "new_Chess (mini_engine ThrowsError) start_fen \<noteq> None" by code_simp
  from h1 h2 start_end_start_is_start [of "mini_engine ThrowsError" "ready ThrowsError open_game" start_fen]
  show ?thesis by blast
qed

section \<open>Navigation at the ends of the move list\<close>

text \<open>
  C7. \<^verbatim>\<open>previousMove\<close> at cursor \<open>-1\<close> changes nothing: it finishes without an exception
  and the whole state (cursor, rules object, displayed position and everything else) is
  the one it was called in.
\<close>

theorem previousMove_at_start_noop:
  "currentMoveIndex st = -1 \<Longrightarrow> previousMove eng st = Finished st"
  by (simp add: previousMove_def)

theorem previousMove_at_start_noop_witness:
  "currentMoveIndex (loaded ReturnsNull open_game) = -1
   \<and> previousMove (mini_engine ReturnsNull) (loaded ReturnsNull open_game)
       = Finished (loaded ReturnsNull open_game)"
proof -
  have h: "currentMoveIndex (loaded ReturnsNull open_game) = -1" by code_simp
  from h previousMove_at_start_noop [OF h] show ?thesis by blast
qed

text \<open>
  C8. \<^verbatim>\<open>nextMove\<close> at cursor \<open>N - 1\<close>, \<open>N\<close> the length of the move list, changes nothing:
  it finishes without an exception and the whole state is the one it was called in.
\<close>

theorem nextMove_at_end_noop:
  "currentMoveIndex st = int (length (puzzleMoves st)) - 1 \<Longrightarrow> nextMove eng st = Finished st"
  by (simp add: nextMove_def)

theorem nextMove_at_end_noop_witness:
  "currentMoveIndex (final (goToEnd (mini_engine ThrowsError) (ready ThrowsError open_game)))
     = int (length (puzzleMoves (final (goToEnd (mini_engine ThrowsError) (ready ThrowsError open_game))))) - 1
   \<and> nextMove (mini_engine ThrowsError) (final (goToEnd (mini_engine ThrowsError) (ready ThrowsError open_game)))
       = Finished (final (goToEnd (mini_engine ThrowsError) (ready ThrowsError open_game)))"
proof -
  have h: "currentMoveIndex (final (goToEnd (mini_engine ThrowsError) (ready ThrowsError open_game)))
     = int (length (puzzleMoves (final (goToEnd (mini_engine ThrowsError) (ready ThrowsError open_game))))) - 1"
    by code_simp
  from h nextMove_at_end_noop [OF h] show ?thesis by blast
qed

section \<open>Loading a puzzle\<close>

text \<open>
  C4. When a puzzle is picked and the constructor accepts its starting position, the
  load sets the orientation to white if Black is to move in that position and to black if
  White is: the side shown at the bottom is not the side to move.
\<close>

theorem orientation_shows_side_not_to_move:
  assumes "js_nth data (floor_times r (length data)) = Some pz"
    and "new_Chess eng (FEN pz) = Some g"
  shows "(turn eng g = Black \<longrightarrow>
            orientation (board (fetchRandomPuzzle eng (Some data) r page)) = White)
       \<and> (turn eng g = White \<longrightarrow>
            orientation (board (fetchRandomPuzzle eng (Some data) r page)) = Black)
       \<and> orientation (board (fetchRandomPuzzle eng (Some data) r page)) \<noteq> turn eng g"
  using fetchRandomPuzzle_success(6)[OF assms, of page]
  by (cases "turn eng g") simp_all

theorem orientation_shows_side_not_to_move_witness:
  "js_nth [open_game] (floor_times (UnitDouble 0 0) (length [open_game])) = Some open_game
   \<and> map_option (turn (mini_engine ReturnsNull)) (new_Chess (mini_engine ReturnsNull) (FEN open_game))
       = Some White
   \<and> orientation (board (fetchRandomPuzzle (mini_engine ReturnsNull) (Some [open_game]) (UnitDouble 0 0) initial_page))
       = Black"
proof -
  have h1: "js_nth [open_game] (floor_times (UnitDouble 0 0) (length [open_game])) = Some open_game"
    by code_simp
  have h2: "map_option (turn (mini_engine ReturnsNull))
              (new_Chess (mini_engine ReturnsNull) (FEN open_game)) = Some White"
    by code_simp
  then obtain g where g: "new_Chess (mini_engine ReturnsNull) (FEN open_game) = Some g"
    and w: "turn (mini_engine ReturnsNull) g = White"
    by auto
  from orientation_shows_side_not_to_move [OF h1 g, of initial_page] w
  have "orientation (board (fetchRandomPuzzle (mini_engine ReturnsNull) (Some [open_game]) (UnitDouble 0 0) initial_page))
       = Black"
    by blast
  with h1 h2 show ?thesis by blast
qed

subsection \<open>The setup move\<close>

lemma playSetupMove_finishes: "\<exists>s. playSetupMove eng st = Finished s"
  by (simp add: playSetupMove_def split: run.splits)

lemma playSetupMove_throw:
  assumes "game st = Some g" and "move eng g (js_nth (puzzleMoves st) 0) = Throws"
  shows "playSetupMove eng st = Finished (st\<lparr>currentMoveIndex := -1\<rparr>)"
  using assms by (simp add: playSetupMove_def setup_try_def)

lemma playSetupMove_null:
  assumes "game st = Some g" and "move eng g (js_nth (puzzleMoves st) 0) = Null"
  shows "currentMoveIndex (final (playSetupMove eng st)) = 0
         \<and> game (final (playSetupMove eng st)) = Some g"
  using assms by (simp add: playSetupMove_def setup_try_def)

text \<open>
  C5 against the code. The callback never lets an exception out, and a throwing
  \<^verbatim>\<open>game.move\<close> leaves the cursor at \<open>-1\<close> (the lemmas above). A move refused by
  \<^verbatim>\<open>null\<close>, the refusal \<^verbatim>\<open>onDrop\<close> tests for, is not caught: in the puzzle \<open>bad_first\<close>
  the setup move \<^verbatim>\<open>e7e5\<close> is not a move of the starting position, the engine answers
  \<^verbatim>\<open>null\<close>, and the callback pushes the unchanged position and sets the cursor to 0.
\<close>

theorem setup_move_null_sets_cursor_zero:
  "currentMoveIndex (loaded ReturnsNull bad_first) = -1
   \<and> timers (loaded ReturnsNull bad_first) = [800]
   \<and> game (loaded ReturnsNull bad_first) = Some \<lparr>squares = standard_board, to_move = White\<rparr>
   \<and> js_nth (puzzleMoves (loaded ReturnsNull bad_first)) 0 = Some ''e7e5''
   \<and> move (mini_engine ReturnsNull) \<lparr>squares = standard_board, to_move = White\<rparr> (Some ''e7e5'') = Null
   \<and> fire_timer (mini_engine ReturnsNull) (loaded ReturnsNull bad_first)
       = Finished (ready ReturnsNull bad_first)
   \<and> currentMoveIndex (ready ReturnsNull bad_first) = 0
   \<and> game (ready ReturnsNull bad_first) = game (loaded ReturnsNull bad_first)
   \<and> position (board (ready ReturnsNull bad_first))
       = ''rnbqkbnr/pppppppp/8/8/8/8/PPPPPPPP/RNBQKBNR w - - 0 1''"
  by code_simp

section \<open>Material\<close>

lemma standard_board_tally:
  "scan_rows standard_board [0..<8] \<lparr>white = 0, black = 0\<rparr> = Some \<lparr>white = 39, black = 39\<rparr>"
  by code_simp

text \<open>
  C3. For an engine that accepts the standard starting position and whose \<^verbatim>\<open>board()\<close>
  for it is the standard grid, \<^verbatim>\<open>calculateMaterial\<close> returns 39 for White and 39 for
  Black.
\<close>

theorem calculateMaterial_standard_start:
  assumes "new_Chess eng start_fen = Some g" and "board_of eng g = standard_board"
  shows "calculateMaterial eng start_fen = Some \<lparr>white = 39, black = 39\<rparr>"
  using assms
  by (simp add: calculateMaterial_def calculateMaterial_try_def catch_with_def standard_board_tally)

theorem calculateMaterial_standard_start_witness:
  "map_option (board_of (mini_engine ReturnsNull)) (new_Chess (mini_engine ReturnsNull) start_fen)
     = Some standard_board
   \<and> calculateMaterial (mini_engine ReturnsNull) start_fen = Some \<lparr>white = 39, black = 39\<rparr>"
proof -
  have h: "map_option (board_of (mini_engine ReturnsNull))
             (new_Chess (mini_engine ReturnsNull) start_fen) = Some standard_board"
    by code_simp
  then obtain g where g: "new_Chess (mini_engine ReturnsNull) start_fen = Some g"
    and b: "board_of (mini_engine ReturnsNull) g = standard_board"
    by auto
  from h calculateMaterial_standard_start [OF g b] show ?thesis by blast
qed

subsection \<open>Replaying moves for the tally\<close>

lemma play_moves_long_tokens:
  "play_moves eng g ms = apply_until_throw eng g (filter (\<lambda>t. 4 \<le> length t) ms)"
proof (induction ms arbitrary: g)
  case Nil
  show ?case by simp
next
  case (Cons m ms)
  show ?case
  proof (cases "4 \<le> length m")
    case True
    then have "m \<noteq> []" by auto
    with True Cons.IH show ?thesis by (simp split: move_result.splits)
  next
    case False
    with Cons.IH show ?thesis by simp
  qed
qed

lemma apply_until_throw_append:
  "\<not> throws_within eng g pre \<Longrightarrow>
   apply_until_throw eng g (pre @ rest) = apply_until_throw eng (apply_until_throw eng g pre) rest"
  by (induction pre arbitrary: g) (auto split: move_result.splits)

lemma calculateMaterial_returns: "\<exists>m. calculateMaterial eng f = Some m"
  by (simp add: calculateMaterial_def catch_with_def split: option.splits)

text \<open>
  C10. \<^verbatim>\<open>playMovesAndCalculateMaterial\<close> always returns a tally and never an exception. If
  the constructor refuses the starting position the tally is 0 and 0. Otherwise it is the
  tally of the position reached by applying the tokens of at least four characters in
  order up to the first application that throws: tokens shorter than four characters are
  never applied (a move list of short tokens only gives the tally of the starting
  position), and when the first throw is at token \<open>m\<close>, after the tokens \<open>pre\<close>, the
  tally is that of the position after \<open>pre\<close>.
\<close>

theorem playMovesAndCalculateMaterial_lenient:
  "(\<exists>t. playMovesAndCalculateMaterial eng f mvs = Some t)
   \<and> (new_Chess eng f = None \<longrightarrow>
        playMovesAndCalculateMaterial eng f mvs = Some \<lparr>white = 0, black = 0\<rparr>)
   \<and> (new_Chess eng f = Some g \<longrightarrow>
        playMovesAndCalculateMaterial eng f mvs
          = calculateMaterial eng (fen eng (apply_until_throw eng g (long_tokens mvs))))
   \<and> (new_Chess eng f = Some g \<and> (\<forall>t \<in> set (split_on CHR '' '' mvs). length t < 4) \<longrightarrow>
        playMovesAndCalculateMaterial eng f mvs = calculateMaterial eng (fen eng g))
   \<and> (new_Chess eng f = Some g \<and> long_tokens mvs = pre @ m # post
        \<and> \<not> throws_within eng g pre
        \<and> move eng (apply_until_throw eng g pre) (Some m) = Throws \<longrightarrow>
        playMovesAndCalculateMaterial eng f mvs
          = calculateMaterial eng (fen eng (apply_until_throw eng g pre)))"
proof -
  have none: "playMovesAndCalculateMaterial eng f mvs = Some \<lparr>white = 0, black = 0\<rparr>"
    if "new_Chess eng f = None"
    using that by (simp add: playMovesAndCalculateMaterial_def playMoves_try_def catch_with_def)
  have some: "playMovesAndCalculateMaterial eng f mvs
          = calculateMaterial eng (fen eng (apply_until_throw eng h (long_tokens mvs)))"
    if "new_Chess eng f = Some h" for h
  proof -
    obtain t where "calculateMaterial eng (fen eng (apply_until_throw eng h (long_tokens mvs))) = Some t"
      using calculateMaterial_returns by blast
    with that show ?thesis
      by (simp add: playMovesAndCalculateMaterial_def playMoves_try_def catch_with_def
            play_moves_long_tokens long_tokens_def)
  qed
  have ret: "\<exists>t. playMovesAndCalculateMaterial eng f mvs = Some t"
  proof (cases "new_Chess eng f")
    case None
    then show ?thesis by (simp add: none)
  next
    case (Some h)
    then show ?thesis by (simp add: some calculateMaterial_returns)
  qed
  have short: "playMovesAndCalculateMaterial eng f mvs = calculateMaterial eng (fen eng g)"
    if "new_Chess eng f = Some g" "\<forall>t \<in> set (split_on CHR '' '' mvs). length t < 4"
  proof -
    have "long_tokens mvs = []"
      using that(2) by (auto simp: long_tokens_def filter_empty_conv)
    with some[OF that(1)] show ?thesis by simp
  qed
  have stop: "playMovesAndCalculateMaterial eng f mvs
          = calculateMaterial eng (fen eng (apply_until_throw eng g pre))"
    if "new_Chess eng f = Some g" "long_tokens mvs = pre @ m # post"
      "\<not> throws_within eng g pre" "move eng (apply_until_throw eng g pre) (Some m) = Throws"
  proof -
    have "apply_until_throw eng g (long_tokens mvs) = apply_until_throw eng g pre"
      using that(2,4) apply_until_throw_append[OF that(3), of "m # post"] by simp
    with some[OF that(1)] show ?thesis by simp
  qed
  from ret none some short stop show ?thesis by blast
qed

theorem playMovesAndCalculateMaterial_lenient_witness:
  "new_Chess (mini_engine ThrowsError) ''no position'' = None
   \<and> playMovesAndCalculateMaterial (mini_engine ThrowsError) ''no position'' ''e2e4''
       = Some \<lparr>white = 0, black = 0\<rparr>
   \<and> new_Chess (mini_engine ThrowsError) start_fen = Some \<lparr>squares = standard_board, to_move = White\<rparr>
   \<and> split_on CHR '' '' ''e4 Nf3'' = [''e4'', ''Nf3'']
   \<and> playMovesAndCalculateMaterial (mini_engine ThrowsError) start_fen ''e4 Nf3''
       = calculateMaterial (mini_engine ThrowsError)
           (fen (mini_engine ThrowsError) \<lparr>squares = standard_board, to_move = White\<rparr>)
   \<and> long_tokens ''e4 e2e4 d7d5 e4d5 Nf3 e4d5 d8d5'' = [''e2e4'', ''d7d5'', ''e4d5''] @ ''e4d5'' # [''d8d5'']
   \<and> \<not> throws_within (mini_engine ThrowsError) \<lparr>squares = standard_board, to_move = White\<rparr>
         [''e2e4'', ''d7d5'', ''e4d5'']
   \<and> move (mini_engine ThrowsError)
        (apply_until_throw (mini_engine ThrowsError) \<lparr>squares = standard_board, to_move = White\<rparr>
           [''e2e4'', ''d7d5'', ''e4d5'']) (Some ''e4d5'') = Throws
   \<and> playMovesAndCalculateMaterial (mini_engine ThrowsError) start_fen ''e4 e2e4 d7d5 e4d5 Nf3 e4d5 d8d5''
       = calculateMaterial (mini_engine ThrowsError)
           (fen (mini_engine ThrowsError)
              (apply_until_throw (mini_engine ThrowsError) \<lparr>squares = standard_board, to_move = White\<rparr>
                 [''e2e4'', ''d7d5'', ''e4d5'']))
   \<and> playMovesAndCalculateMaterial (mini_engine ThrowsError) start_fen ''e4 e2e4 d7d5 e4d5 Nf3 e4d5 d8d5''
       = Some \<lparr>white = 39, black = 38\<rparr>"
proof -
  let ?e = "mini_engine ThrowsError"
  let ?g = "\<lparr>squares = standard_board, to_move = White\<rparr>"
  let ?pre = "[''e2e4'', ''d7d5'', ''e4d5'']"
  have h0: "new_Chess ?e ''no position'' = None" by code_simp
  have h1: "new_Chess ?e start_fen = Some ?g" by code_simp
  have h2': "split_on CHR '' '' ''e4 Nf3'' = [''e4'', ''Nf3'']" by code_simp
  then have h2: "\<forall>t \<in> set (split_on CHR '' '' ''e4 Nf3''). length t < 4" by simp
  have h3: "long_tokens ''e4 e2e4 d7d5 e4d5 Nf3 e4d5 d8d5'' = ?pre @ ''e4d5'' # [''d8d5'']"
    by code_simp
  have h4: "\<not> throws_within ?e ?g ?pre" by code_simp
  have h5: "move ?e (apply_until_throw ?e ?g ?pre) (Some ''e4d5'') = Throws" by code_simp
  have v: "calculateMaterial ?e (fen ?e (apply_until_throw ?e ?g ?pre))
             = Some \<lparr>white = 39, black = 38\<rparr>"
    by code_simp
  from playMovesAndCalculateMaterial_lenient [of ?e "''no position''" "''e2e4''"] h0
  have a: "playMovesAndCalculateMaterial ?e ''no position'' ''e2e4'' = Some \<lparr>white = 0, black = 0\<rparr>"
    by blast
  from playMovesAndCalculateMaterial_lenient [of ?e start_fen "''e4 Nf3''" ?g] h1 h2
  have b: "playMovesAndCalculateMaterial ?e start_fen ''e4 Nf3'' = calculateMaterial ?e (fen ?e ?g)"
    by blast
  from playMovesAndCalculateMaterial_lenient
         [of ?e start_fen "''e4 e2e4 d7d5 e4d5 Nf3 e4d5 d8d5''" ?g ?pre "''e4d5''" "[''d8d5'']"]
       h1 h3 h4 h5
  have c: "playMovesAndCalculateMaterial ?e start_fen ''e4 e2e4 d7d5 e4d5 Nf3 e4d5 d8d5''
             = calculateMaterial ?e (fen ?e (apply_until_throw ?e ?g ?pre))"
    by blast
  from c v have d: "playMovesAndCalculateMaterial ?e start_fen ''e4 e2e4 d7d5 e4d5 Nf3 e4d5 d8d5''
             = Some \<lparr>white = 39, black = 38\<rparr>"
    by (rule trans)
  from h0 a h1 h2' b h3 h4 h5 c d show ?thesis by blast
qed

section \<open>The random-move driver\<close>

lemma width_bounds: "0 < n \<Longrightarrow> 2 ^ (width n - 1) \<le> n \<and> n < 2 ^ width n"
proof (induction n rule: width.induct)
  case (1 n)
  have w: "width n = Suc (width (n div 2))" using "1.prems" by (simp add: width.simps[of n])
  show ?case
  proof (cases "n div 2 \<le> 0")
    case True
    with "1.prems" have n: "n = 1" by linarith
    from True have "width (n div 2) = 0" by (simp add: width.simps[of "n div 2"])
    with w n show ?thesis by simp
  next
    case False
    then have pos: "0 < n div 2" by simp
    from "1.IH"[OF _ pos] "1.prems"
    have ih: "2 ^ (width (n div 2) - 1) \<le> n div 2" "n div 2 < 2 ^ width (n div 2)" by simp_all
    have wpos: "0 < width (n div 2)" using pos by (simp add: width.simps[of "n div 2"])
    then have e: "2 ^ (width n - 1) = 2 * (2::int) ^ (width (n div 2) - 1)"
      using w by (cases "width (n div 2)") simp_all
    have "2 * 2 ^ (width (n div 2) - 1) \<le> n" using ih(1) by linarith
    moreover have "n < 2 * 2 ^ width (n div 2)" using ih(2) by linarith
    ultimately show ?thesis using w e by simp
  qed
qed

lemma width_above:
  assumes "2 ^ p \<le> M"
  shows "p < width M"
proof -
  have "(0::int) < 2 ^ p" by simp
  with assms have "0 < M" by linarith
  from width_bounds[OF this] assms have "(2::int) ^ p < 2 ^ width M" by linarith
  then show ?thesis by (simp add: power_strict_increasing_iff)
qed

lemma round_to_bits_upper:
  assumes "2 ^ p \<le> M"
  shows "round_to_bits p M \<le> M + 2 ^ (width M - Suc p)"
proof -
  let ?s = "width M - p"
  from width_above[OF assms] have s: "0 < ?s" "?s - 1 = width M - Suc p" by simp_all
  then have two: "(2::int) ^ ?s = 2 * 2 ^ (?s - 1)" by (cases ?s) simp_all
  have split: "M div 2 ^ ?s * 2 ^ ?s + M mod 2 ^ ?s = M" by (rule div_mult_mod_eq)
  have big: "\<not> M < 2 ^ p" using assms by simp
  show ?thesis
  proof (cases "M mod 2 ^ ?s > 2 ^ (?s - 1) \<or> (M mod 2 ^ ?s = 2 ^ (?s - 1) \<and> odd (M div 2 ^ ?s))")
    case True
    then have ge: "2 ^ (?s - 1) \<le> M mod 2 ^ ?s" by auto
    have "round_to_bits p M = (M div 2 ^ ?s + 1) * 2 ^ ?s"
      unfolding round_to_bits_def Let_def using big True by (simp only: if_False if_True)
    also have "\<dots> = M div 2 ^ ?s * 2 ^ ?s + 2 ^ ?s" by (simp add: algebra_simps)
    also have "\<dots> \<le> M + 2 ^ (?s - 1)" using split ge two by linarith
    finally show ?thesis using s by simp
  next
    case False
    have "round_to_bits p M = M div 2 ^ ?s * 2 ^ ?s"
      unfolding round_to_bits_def Let_def using big False by (simp only: if_False)
    also have "\<dots> \<le> M"
    proof -
      have "0 \<le> M mod 2 ^ ?s" by simp
      with split show ?thesis by linarith
    qed
    finally have "round_to_bits p M \<le> M" .
    moreover have "(0::int) \<le> 2 ^ (width M - Suc p)" by simp
    ultimately show ?thesis by linarith
  qed
qed

lemma round_to_bits_scaled:
  assumes m0: "0 \<le> m" and m: "m < 2 ^ p" and mE: "m < 2 ^ E" and n: "0 < n"
  shows "round_to_bits p (m * n) < n * 2 ^ E"
proof -
  let ?M = "m * n"
  have top: "?M + n \<le> n * 2 ^ E"
  proof -
    have "m + 1 \<le> 2 ^ E" using mE by simp
    then have "(m + 1) * n \<le> 2 ^ E * n" using n by (intro mult_right_mono) simp_all
    then show ?thesis by (simp add: algebra_simps)
  qed
  show ?thesis
  proof (cases "?M < 2 ^ p")
    case True
    then have "round_to_bits p ?M = ?M" by (simp add: round_to_bits_def)
    with top n show ?thesis by linarith
  next
    case False
    then have big: "2 ^ p \<le> ?M" by simp
    have w: "p < width ?M" by (rule width_above[OF big])
    have "(0::int) < 2 ^ p" by simp
    with big have Mpos: "0 < ?M" by linarith
    have "?M < 2 ^ p * n" using m n by (simp add: mult_strict_right_mono)
    moreover have "2 ^ (width ?M - 1) \<le> ?M" using width_bounds[OF Mpos] by simp
    moreover have "(2::int) ^ (width ?M - 1) = 2 ^ p * 2 ^ (width ?M - Suc p)"
    proof -
      have "width ?M - 1 = p + (width ?M - Suc p)" using w by simp
      then show ?thesis by (simp only: power_add)
    qed
    ultimately have "(2::int) ^ p * 2 ^ (width ?M - Suc p) < 2 ^ p * n" by linarith
    then have "2 ^ (width ?M - Suc p) < n" by simp
    with round_to_bits_upper[OF big] top show ?thesis by linarith
  qed
qed

lemma div_less_of_less_mult:
  fixes a d n :: int
  assumes "a < n * d" and "0 < d"
  shows "a div d < n"
proof (rule ccontr)
  assume "\<not> a div d < n"
  then have "n \<le> a div d" by simp
  then have "n * d \<le> a div d * d" using assms(2) by (intro mult_right_mono) simp_all
  moreover have "a div d * d + a mod d = a" by (rule div_mult_mod_eq)
  moreover have "0 \<le> a mod d" using assms(2) by simp
  ultimately show False using assms(1) by linarith
qed

lemma round_to_bits_nonneg: "0 \<le> M \<Longrightarrow> 0 \<le> round_to_bits p M"
  by (simp add: round_to_bits_def Let_def pos_imp_zdiv_nonneg_iff)

lemma floor_times_in_range:
  assumes "is_unit_double r" and "0 < n"
  shows "0 \<le> floor_times r n \<and> floor_times r n < int n"
proof -
  from assms(1) have m: "0 \<le> mant r" "mant r < 2 ^ 53" "mant r < 2 ^ expo r"
    by (simp_all only: is_unit_double_def)
  have n: "0 < int n" using assms(2) by simp
  have "round_to_bits 53 (mant r * int n) < int n * 2 ^ expo r"
    by (rule round_to_bits_scaled[OF m n])
  then have up: "round_to_bits 53 (mant r * int n) div 2 ^ expo r < int n"
    by (rule div_less_of_less_mult) simp
  have "0 \<le> mant r * int n" using m(1) by simp
  then have "0 \<le> round_to_bits 53 (mant r * int n)" by (rule round_to_bits_nonneg)
  then have "0 \<le> round_to_bits 53 (mant r * int n) div 2 ^ expo r"
    by (simp only: pos_imp_zdiv_nonneg_iff zero_less_power zero_less_numeral)
  with up show ?thesis by (simp only: floor_times_def simp_thms)
qed

text \<open>
  C6. Let \<^verbatim>\<open>Math.random()\<close> return the double \<open>r\<close>, \<open>0 \<le> r < 1\<close>. If the game is over
  when \<^verbatim>\<open>makeRandomMove\<close> starts, it changes nothing and schedules nothing: with no timeout
  pending the chain never runs again, and a chain with one pending timeout ends when that
  one fires. If the game is not over, the list of legal moves is not empty and the engine
  applies the move at index \<^verbatim>\<open>Math.floor(r * length)\<close>, the product being the one of
  doubles, then that index is inside the list, the rules object is the one after that
  single move, its position is pushed to the widget, and exactly one timeout of 500 ms is
  added.
\<close>

theorem makeRandomMove_one_move_or_halt:
  assumes "is_unit_double r"
  shows "(isGameOver eng (game_rg st) \<longrightarrow>
            makeRandomMove eng r st = Finished st
            \<and> (timers_rg st = [] \<longrightarrow> drive eng rs st = st)
            \<and> (timers_rg st = [d] \<longrightarrow> drive eng (r # rs) st = st\<lparr>timers_rg := []\<rparr>))
       \<and> (\<not> isGameOver eng (game_rg st) \<and> moves eng (game_rg st) \<noteq> []
            \<and> move_plain eng (game_rg st)
                 (Some (moves eng (game_rg st)
                    ! nat (floor_times r (length (moves eng (game_rg st)))))) = Moved g' \<longrightarrow>
            0 \<le> floor_times r (length (moves eng (game_rg st)))
            \<and> floor_times r (length (moves eng (game_rg st))) < int (length (moves eng (game_rg st)))
            \<and> makeRandomMove eng r st =
                Finished (st\<lparr>game_rg := g', board_rg := fen eng g',
                             timers_rg := timers_rg st @ [500]\<rparr>))"
proof (intro conjI impI)
  assume "isGameOver eng (game_rg st)"
  then show "makeRandomMove eng r st = Finished st" by (simp add: makeRandomMove_def)
next
  assume "timers_rg st = []"
  then show "drive eng rs st = st" by (cases rs) simp_all
next
  assume "isGameOver eng (game_rg st)" and "timers_rg st = [d]"
  then have "drive eng (r # rs) st = drive eng rs (st\<lparr>timers_rg := []\<rparr>)"
    by (simp add: makeRandomMove_def)
  also have "\<dots> = st\<lparr>timers_rg := []\<rparr>" by (cases rs) simp_all
  finally show "drive eng (r # rs) st = st\<lparr>timers_rg := []\<rparr>" .
next
  assume a: "\<not> isGameOver eng (game_rg st) \<and> moves eng (game_rg st) \<noteq> []
            \<and> move_plain eng (game_rg st)
                 (Some (moves eng (game_rg st)
                    ! nat (floor_times r (length (moves eng (game_rg st)))))) = Moved g'"
  let ?ms = "moves eng (game_rg st)"
  from a have "0 < length ?ms" by simp
  from floor_times_in_range[OF assms this]
  have i: "0 \<le> floor_times r (length ?ms)" "floor_times r (length ?ms) < int (length ?ms)"
    by simp_all
  from i show "0 \<le> floor_times r (length ?ms)" by simp
  from i show "floor_times r (length ?ms) < int (length ?ms)" by simp
  from i have "js_nth ?ms (floor_times r (length ?ms)) = Some (?ms ! nat (floor_times r (length ?ms)))"
    by (simp add: js_nth_def)
  with a show "makeRandomMove eng r st =
                Finished (st\<lparr>game_rg := g', board_rg := fen eng g',
                             timers_rg := timers_rg st @ [500]\<rparr>)"
    by (simp add: makeRandomMove_def Let_def)
qed

text \<open>
  The witness takes \<open>r = 1/2\<close> and, for a product that rounds, the double
  \<open>285942833483841 / 2 ^ 54\<close>: with 63 legal moves its exact product is \<open>1 - 2 ^ -54\<close>,
  the double product is 1, and the move played is the one at index 1.
\<close>

theorem makeRandomMove_one_move_or_halt_witness:
  "is_unit_double (UnitDouble 1 1)
   \<and> isGameOver (mini_engine ThrowsError) lone_king
   \<and> makeRandomMove (mini_engine ThrowsError) (UnitDouble 1 1)
        \<lparr>board_rg = ''start'', game_rg = lone_king, timers_rg = []\<rparr>
       = Finished \<lparr>board_rg = ''start'', game_rg = lone_king, timers_rg = []\<rparr>
   \<and> drive (mini_engine ThrowsError) [UnitDouble 1 1, UnitDouble 1 1]
        \<lparr>board_rg = ''start'', game_rg = lone_king, timers_rg = []\<rparr>
       = \<lparr>board_rg = ''start'', game_rg = lone_king, timers_rg = []\<rparr>
   \<and> drive (mini_engine ThrowsError) [UnitDouble 1 1, UnitDouble 1 1]
        \<lparr>board_rg = ''start'', game_rg = lone_king, timers_rg = [500]\<rparr>
       = \<lparr>board_rg = ''start'', game_rg = lone_king, timers_rg = []\<rparr>
   \<and> \<not> isGameOver (mini_engine ThrowsError) (kings (7, 0) White)
   \<and> length (moves (mini_engine ThrowsError) (kings (7, 0) White)) = 63
   \<and> floor_times (UnitDouble 1 1) 63 = 31
   \<and> moves (mini_engine ThrowsError) (kings (7, 0) White) ! 31 = ''a1h5''
   \<and> move_plain (mini_engine ThrowsError) (kings (7, 0) White) (Some ''a1h5'')
       = Moved (kings (3, 7) Black)
   \<and> makeRandomMove (mini_engine ThrowsError) (UnitDouble 1 1)
        \<lparr>board_rg = ''start'', game_rg = kings (7, 0) White, timers_rg = []\<rparr>
       = Finished \<lparr>board_rg = ''7k/8/8/7K/8/8/8/8 b - - 0 1'', game_rg = kings (3, 7) Black,
                   timers_rg = [500]\<rparr>
   \<and> is_unit_double (UnitDouble 285942833483841 54)
   \<and> floor_times (UnitDouble 285942833483841 54) 63 = 1
   \<and> moves (mini_engine ThrowsError) (kings (7, 0) White) ! 1 = ''a1b8''
   \<and> move_plain (mini_engine ThrowsError) (kings (7, 0) White) (Some ''a1b8'')
       = Moved (kings (0, 1) Black)
   \<and> makeRandomMove (mini_engine ThrowsError) (UnitDouble 285942833483841 54)
        \<lparr>board_rg = ''start'', game_rg = kings (7, 0) White, timers_rg = []\<rparr>
       = Finished \<lparr>board_rg = ''1K5k/8/8/8/8/8/8/8 b - - 0 1'', game_rg = kings (0, 1) Black,
                   timers_rg = [500]\<rparr>"
proof -
  let ?e = "mini_engine ThrowsError"
  let ?h = "UnitDouble 1 1" and ?t = "UnitDouble 285942833483841 54"
  let ?over = "\<lparr>board_rg = ''start'', game_rg = lone_king, timers_rg = []\<rparr>"
  let ?live = "\<lparr>board_rg = ''start'', game_rg = kings (7, 0) White, timers_rg = []\<rparr>"
  have r: "is_unit_double ?h" by code_simp
  have r': "is_unit_double ?t" by code_simp
  have o: "isGameOver ?e (game_rg ?over)" by code_simp
  have n: "\<not> isGameOver ?e (game_rg ?live)" by code_simp
  have l: "length (moves ?e (game_rg ?live)) = 63" by code_simp
  have i: "floor_times ?h 63 = 31" by code_simp
  have i': "floor_times ?t 63 = 1" by code_simp
  have m: "moves ?e (game_rg ?live) ! 31 = ''a1h5''" by code_simp
  have m': "moves ?e (game_rg ?live) ! 1 = ''a1b8''" by code_simp
  have p: "move_plain ?e (game_rg ?live) (Some ''a1h5'') = Moved (kings (3, 7) Black)"
    by code_simp
  have p': "move_plain ?e (game_rg ?live) (Some ''a1b8'') = Moved (kings (0, 1) Black)"
    by code_simp
  have f: "fen ?e (kings (3, 7) Black) = ''7k/8/8/7K/8/8/8/8 b - - 0 1''" by code_simp
  have f': "fen ?e (kings (0, 1) Black) = ''1K5k/8/8/8/8/8/8/8 b - - 0 1''" by code_simp
  have ne: "moves ?e (game_rg ?live) \<noteq> []" using l by auto
  have n31: "nat 31 = (31::nat)" "nat 1 = (1::nat)" by simp_all
  have q: "move_plain ?e (game_rg ?live)
              (Some (moves ?e (game_rg ?live)
                 ! nat (floor_times ?h (length (moves ?e (game_rg ?live))))))
            = Moved (kings (3, 7) Black)"
    by (simp only: l i n31 m p)
  have q': "move_plain ?e (game_rg ?live)
              (Some (moves ?e (game_rg ?live)
                 ! nat (floor_times ?t (length (moves ?e (game_rg ?live))))))
            = Moved (kings (0, 1) Black)"
    by (simp only: l i' n31 m' p')
  from makeRandomMove_one_move_or_halt
         [OF r, where eng = ?e and st = ?over and rs = "[?h, ?h]"] o
  have a: "makeRandomMove ?e ?h ?over = Finished ?over"
    "drive ?e [?h, ?h] ?over = ?over"
    by simp_all
  from makeRandomMove_one_move_or_halt
         [OF r, where eng = ?e and st = "?over\<lparr>timers_rg := [500]\<rparr>" and d = 500 and rs = "[?h]"] o
  have a': "drive ?e [?h, ?h] \<lparr>board_rg = ''start'', game_rg = lone_king, timers_rg = [500]\<rparr>
              = ?over"
    by simp
  from makeRandomMove_one_move_or_halt
         [OF r, where eng = ?e and st = ?live and g' = "kings (3, 7) Black"] n ne q
  have "makeRandomMove ?e ?h ?live =
          Finished (?live\<lparr>game_rg := kings (3, 7) Black, board_rg := fen ?e (kings (3, 7) Black),
                           timers_rg := timers_rg ?live @ [500]\<rparr>)"
    by blast
  then have b: "makeRandomMove ?e ?h ?live =
          Finished \<lparr>board_rg = ''7k/8/8/7K/8/8/8/8 b - - 0 1'', game_rg = kings (3, 7) Black,
                    timers_rg = [500]\<rparr>"
    by (simp add: f)
  from makeRandomMove_one_move_or_halt
         [OF r', where eng = ?e and st = ?live and g' = "kings (0, 1) Black"] n ne q'
  have "makeRandomMove ?e ?t ?live =
          Finished (?live\<lparr>game_rg := kings (0, 1) Black, board_rg := fen ?e (kings (0, 1) Black),
                           timers_rg := timers_rg ?live @ [500]\<rparr>)"
    by blast
  then have b': "makeRandomMove ?e ?t ?live =
          Finished \<lparr>board_rg = ''1K5k/8/8/8/8/8/8/8 b - - 0 1'', game_rg = kings (0, 1) Black,
                    timers_rg = [500]\<rparr>"
    using f' by simp
  from r r' o n l i i' m m' p p' a a' b b' show ?thesis by simp
qed

end
